theory Spec2Isabelle
  imports Main
begin

section \<open>The Globe Labs handler (handlers/globe/globe.go)\<close>

text \<open>
  The handler has two entry points: \<open>ReceiveMessage\<close> turns a vendor webhook payload
  into incoming messages and hands each to the backend, \<open>SendMsg\<close> splits an outgoing
  message into parts and posts one request per part. Both are embedded below as
  functions that pass their effects explicitly:
  \<^item> a Go \<open>error\<close> value is its message, \<open>nil\<close> is \<open>None\<close>;
  \<^item> a pointer that may be \<open>nil\<close> is an \<open>option\<close>, and dereferencing \<open>nil\<close> is the
    outcome \<open>NilPointerPanic\<close>;
  \<^item> the backend, the response writer and the network are traces: the list of
    messages handed to \<open>WriteMsg\<close>, the list of acknowledgments written to the
    \<open>http.ResponseWriter\<close>, the list of requests given to \<open>MakeHTTPRequest\<close>;
  \<^item> what the Go standard library and the other packages answer is a parameter
    (the records \<open>rx_deps\<close> and \<open>tx_deps\<close>), so every theorem holds for whatever
    they answer.
\<close>

subsection \<open>Constants\<close>

definition maxMsgLength :: nat where
  "maxMsgLength = 160"

text \<open>\<open>fmt.Sprintf(sendURL, a)\<close> with the one \<open>%s\<close> of \<open>sendURL\<close> filled in.\<close>

definition sendURL :: "string \<Rightarrow> string" where
  "sendURL a = ''https://devapi.globelabs.com.ph/smsmessaging/v1/outbound/'' @ a @ ''/requests''"

definition configPassphrase :: string where
  "configPassphrase = ''passphrase''"

definition configAppSecret :: string where
  "configAppSecret = ''app_secret''"

definition configAppID :: string where
  "configAppID = ''app_id''"

subsection \<open>Strings\<close>

text \<open>\<open>strings.HasPrefix\<close> and \<open>strings.TrimPrefix\<close> of the Go standard library.\<close>

definition HasPrefix :: "string \<Rightarrow> string \<Rightarrow> bool" where
  "HasPrefix s pre = (take (length pre) s = pre)"

definition TrimPrefix :: "string \<Rightarrow> string \<Rightarrow> string" where
  "TrimPrefix s pre = (if HasPrefix s pre then drop (length pre) s else s)"

subsection \<open>Channels and messages\<close>

type_synonym URN = string

text \<open>A \<open>time.Time\<close>, as seconds since the Unix epoch (UTC).\<close>

type_synonym Time = int

record Channel =
  ch_UUID :: string
  ch_Country :: string
  ch_Address :: string
  ch_Config :: "string \<rightharpoonup> string"

text \<open>
  Modelled from the spec: \<open>Channel.StringConfigForKey\<close> is implemented outside
  this file; the spec gives a channel "a mapping of string configuration keys to
  string values", so the lookup answers the bound value, or the default for an
  absent key.
\<close>

definition StringConfigForKey :: "Channel \<Rightarrow> string \<Rightarrow> string \<Rightarrow> string" where
  "StringConfigForKey c key dflt = (case ch_Config c key of None \<Rightarrow> dflt | Some v \<Rightarrow> v)"

text \<open>The outgoing \<open>courier.Msg\<close>, with the accessors \<open>SendMsg\<close> uses.\<close>

record Msg =
  msg_ID :: int
  msg_Channel :: Channel
  msg_URN_Path :: string
  msg_Text :: string
  msg_Attachments :: "string list"

text \<open>
  An incoming message, with the attributes the spec gives it: source channel, sender
  identifier, body text, external identifier (empty when absent), received
  timestamp.
\<close>

record IncomingMsg =
  in_Channel :: string
  in_URN :: URN
  in_Text :: string
  in_ExternalID :: string
  in_ReceivedOn :: "Time option"

text \<open>
  Modelled from the spec: \<open>Backend().NewIncomingMsg\<close> is implemented outside this
  file; the spec has it construct the message from the channel, the sender
  identifier and the body text.
\<close>

definition NewIncomingMsg :: "Channel \<Rightarrow> URN \<Rightarrow> string \<Rightarrow> IncomingMsg" where
  "NewIncomingMsg c urn text =
     \<lparr>in_Channel = ch_UUID c, in_URN = urn, in_Text = text, in_ExternalID = [],
      in_ReceivedOn = None\<rparr>"

text \<open>
  Modelled from the spec: \<open>WithExternalID\<close> is implemented outside this file; it
  sets the vendor-assigned external identifier of the message.
\<close>

definition WithExternalID :: "IncomingMsg \<Rightarrow> string \<Rightarrow> IncomingMsg" where
  "WithExternalID m x = m\<lparr>in_ExternalID := x\<rparr>"

text \<open>
  Modelled from the spec: \<open>WithReceivedOn\<close> is implemented outside this file; it
  sets the received timestamp of the message.
\<close>

definition WithReceivedOn :: "IncomingMsg \<Rightarrow> Time \<Rightarrow> IncomingMsg" where
  "WithReceivedOn m d = m\<lparr>in_ReceivedOn := Some d\<rparr>"

subsection \<open>Receiving\<close>

text \<open>One entry of \<open>inboundSMSMessage\<close>, and the decoded \<open>moMsg\<close>.\<close>

record InboundSMSMessage =
  DateTime :: string
  DestinationAddress :: string
  MessageID :: string
  Message :: string
  SenderAddress :: string

record InboundSMSMessageList =
  InboundSMSMessage :: "InboundSMSMessage list"

record moMsg =
  InboundSMSMessageList :: InboundSMSMessageList

text \<open>What the handler writes to the \<open>http.ResponseWriter\<close>.\<close>

datatype ack =
    RequestError string
  | RequestIgnored string
  | MsgSuccess "IncomingMsg list"

text \<open>
  The collaborators of \<open>ReceiveMessage\<close>: the JSON decoder, \<open>time.Parse\<close>,
  \<open>urns.NewTelURNForCountry\<close>, the error (if any) of the backend's \<open>WriteMsg\<close>
  given the messages it was handed before and the message at hand, and the error
  (if any) of writing an acknowledgment to the response writer.
\<close>

record rx_deps =
  handlers_DecodeAndValidateJSON :: "string \<Rightarrow> string + moMsg"
  time_Parse :: "string \<Rightarrow> string \<Rightarrow> string + Time"
  urns_NewTelURNForCountry :: "string \<Rightarrow> string \<Rightarrow> URN"
  backend_error :: "IncomingMsg list \<Rightarrow> IncomingMsg \<Rightarrow> string option"
  writer_error :: "ack \<Rightarrow> string option"

text \<open>
  The world of one webhook call: every message handed to \<open>WriteMsg\<close>, in call
  order; the messages the backend stored (\<open>WriteMsg\<close> returned \<open>nil\<close>); the
  acknowledgments written to the caller.
\<close>

record rx_world =
  wm_calls :: "IncomingMsg list"
  persisted :: "IncomingMsg list"
  responses :: "ack list"

definition rx_world0 :: rx_world where
  "rx_world0 = \<lparr>wm_calls = [], persisted = [], responses = []\<rparr>"

text \<open>
  Modelled from the spec: the backend's \<open>WriteMsg\<close> is implemented outside this
  file; the spec gives it as \<open>WriteIncomingMessage(message) -> error\<close>, one
  persistence write per call, which may fail.
\<close>

definition WriteMsg :: "rx_deps \<Rightarrow> rx_world \<Rightarrow> IncomingMsg \<Rightarrow> string option \<times> rx_world" where
  "WriteMsg env w m =
     (case backend_error env (wm_calls w) m of
        Some e \<Rightarrow> (Some e, w\<lparr>wm_calls := wm_calls w @ [m]\<rparr>)
      | None \<Rightarrow> (None, w\<lparr>wm_calls := wm_calls w @ [m], persisted := persisted w @ [m]\<rparr>))"

text \<open>
  Modelled from the spec: \<open>courier.WriteAndLogRequestError\<close> is implemented
  outside this file; the spec has a validation failure "surfaced to the sender as a
  request error". It writes that acknowledgment and returns the error of the write.
\<close>

definition WriteAndLogRequestError :: "rx_deps \<Rightarrow> rx_world \<Rightarrow> string \<Rightarrow> string option \<times> rx_world" where
  "WriteAndLogRequestError env w err =
     (writer_error env (RequestError err), w\<lparr>responses := responses w @ [RequestError err]\<rparr>)"

text \<open>
  Modelled from the spec: \<open>courier.WriteAndLogRequestIgnored\<close> is implemented
  outside this file; the spec has it report "the Ignored outcome with a
  human-readable reason" to the vendor. It writes that acknowledgment and returns
  the error of the write.
\<close>

definition WriteAndLogRequestIgnored :: "rx_deps \<Rightarrow> rx_world \<Rightarrow> string \<Rightarrow> string option \<times> rx_world" where
  "WriteAndLogRequestIgnored env w details =
     (writer_error env (RequestIgnored details),
      w\<lparr>responses := responses w @ [RequestIgnored details]\<rparr>)"

text \<open>
  Modelled from the spec: \<open>courier.WriteMsgSuccess\<close> is implemented outside this
  file; the spec has it write "a success acknowledgment outcome for every one" of
  the messages it is given. It writes that acknowledgment and returns the error of
  the write.
\<close>

definition WriteMsgSuccess :: "rx_deps \<Rightarrow> rx_world \<Rightarrow> IncomingMsg list \<Rightarrow> string option \<times> rx_world" where
  "WriteMsgSuccess env w msgs =
     (writer_error env (MsgSuccess msgs), w\<lparr>responses := responses w @ [MsgSuccess msgs]\<rparr>)"

text \<open>The layout \<open>ReceiveMessage\<close> gives to \<open>time.Parse\<close>.\<close>

definition dateLayout :: string where
  "dateLayout = ''Mon Jan 2 2006 15:04:05 GMT+0000 (UTC)''"

text \<open>
  The result of \<open>ReceiveMessage\<close>: the events and the error it returns (a \<open>nil\<close>
  slice is the empty list), and the world after the call.
\<close>

type_synonym rx_result = "(IncomingMsg list \<times> string option) \<times> rx_world"

text \<open>
  The loop over the entries (lines 90 to 113): \<open>events\<close> and \<open>msgs\<close> are the two
  slices the loop appends to; the empty list is the code after the loop.
\<close>

fun receive_entries ::
  "rx_deps \<Rightarrow> Channel \<Rightarrow> InboundSMSMessage list \<Rightarrow> IncomingMsg list \<Rightarrow> IncomingMsg list
     \<Rightarrow> rx_world \<Rightarrow> rx_result" where
  "receive_entries env c [] events msgs w =
     (case WriteMsgSuccess env w msgs of (err, w') \<Rightarrow> ((events, err), w'))"
| "receive_entries env c (glMsg # rest) events msgs w =
     (case time_Parse env dateLayout (DateTime glMsg) of
        Inl err \<Rightarrow>
          (case WriteAndLogRequestError env w err of (e, w') \<Rightarrow> (([], e), w'))
      | Inr date \<Rightarrow>
          if \<not> HasPrefix (SenderAddress glMsg) ''tel:'' then
            (case WriteAndLogRequestError env w ''invalid 'senderAddress' parameter'' of
               (e, w') \<Rightarrow> (([], e), w'))
          else
            (let urn = urns_NewTelURNForCountry env (drop 4 (SenderAddress glMsg)) (ch_Country c);
                 msg = WithReceivedOn
                         (WithExternalID (NewIncomingMsg c urn (Message glMsg)) (MessageID glMsg))
                         date
             in case WriteMsg env w msg of
                  (Some err, w') \<Rightarrow> (([], Some err), w')
                | (None, w') \<Rightarrow> receive_entries env c rest (events @ [msg]) (msgs @ [msg]) w'))"

definition ReceiveMessage :: "rx_deps \<Rightarrow> Channel \<Rightarrow> string \<Rightarrow> rx_world \<Rightarrow> rx_result" where
  "ReceiveMessage env c r w =
     (case handlers_DecodeAndValidateJSON env r of
        Inl err \<Rightarrow>
          (case WriteAndLogRequestError env w err of (e, w') \<Rightarrow> (([], e), w'))
      | Inr glRequest \<Rightarrow>
          if length (InboundSMSMessage (InboundSMSMessageList glRequest)) = 0 then
            (case WriteAndLogRequestIgnored env w ''no messages, ignored'' of
               (e, w') \<Rightarrow> (([], e), w'))
          else
            receive_entries env c (InboundSMSMessage (InboundSMSMessageList glRequest)) [] [] w)"

subsection \<open>Sending\<close>

text \<open>The JSON body \<open>mtMsg\<close> of one request.\<close>

record mtMsg =
  mt_Address :: string
  mt_Message :: string
  mt_Passphrase :: string
  mt_AppID :: string
  mt_AppSecret :: string

text \<open>An \<open>http.Request\<close>: method, URL, headers and body.\<close>

record Request =
  req_Method :: string
  req_URL :: string
  req_Header :: "(string \<times> string) list"
  req_Body :: string

text \<open>\<open>Header.Set\<close>: the key gets the one value, replacing what it had.\<close>

definition Header_Set :: "Request \<Rightarrow> string \<Rightarrow> string \<Rightarrow> Request" where
  "Header_Set req k v =
     req\<lparr>req_Header := filter (\<lambda>kv. fst kv \<noteq> k) (req_Header req) @ [(k, v)]\<rparr>"

text \<open>The request and response trace \<open>utils.MakeHTTPRequest\<close> returns.\<close>

record RR =
  rr_StatusCode :: int
  rr_Body :: string

datatype MsgStatusValue = MsgErrored | MsgWired

record ChannelLog =
  log_Description :: string
  log_Channel :: string
  log_MsgID :: int
  log_RR :: RR
  log_Error :: "(string \<times> string) option"

record MsgStatus =
  ms_Channel :: string
  ms_ID :: int
  ms_Status :: MsgStatusValue
  ms_Logs :: "ChannelLog list"

text \<open>
  Modelled from the spec: \<open>Backend().NewMsgStatusForID\<close> is implemented outside
  this file; the spec gives it as \<open>NewMsgStatus(channel, messageID, initialState)\<close>,
  a status in its initial state with no log entry yet.
\<close>

definition NewMsgStatusForID :: "Channel \<Rightarrow> int \<Rightarrow> MsgStatusValue \<Rightarrow> MsgStatus" where
  "NewMsgStatusForID c i s = \<lparr>ms_Channel = ch_UUID c, ms_ID = i, ms_Status = s, ms_Logs = []\<rparr>"

text \<open>
  Modelled from the spec: \<open>AddLog\<close> is implemented outside this file; the spec
  gives the log entries of a status as an ordered, append-only sequence.
\<close>

definition AddLog :: "MsgStatus \<Rightarrow> ChannelLog \<Rightarrow> MsgStatus" where
  "AddLog status l = status\<lparr>ms_Logs := ms_Logs status @ [l]\<rparr>"

text \<open>
  Modelled from the spec: \<open>SetStatus\<close> is implemented outside this file; it sets
  the current state of the status.
\<close>

definition SetStatus :: "MsgStatus \<Rightarrow> MsgStatusValue \<Rightarrow> MsgStatus" where
  "SetStatus status s = status\<lparr>ms_Status := s\<rparr>"

text \<open>
  Modelled from the spec: \<open>courier.NewChannelLogFromRR\<close> is implemented outside
  this file; the spec gives a log entry as a description and the request and
  response trace of one exchange, with no error yet.
\<close>

definition NewChannelLogFromRR :: "string \<Rightarrow> Channel \<Rightarrow> int \<Rightarrow> RR \<Rightarrow> ChannelLog" where
  "NewChannelLogFromRR d c i rr =
     \<lparr>log_Description = d, log_Channel = ch_UUID c, log_MsgID = i, log_RR = rr, log_Error = None\<rparr>"

text \<open>
  Modelled from the spec: \<open>WithError\<close> is implemented outside this file; the spec
  has the log entry capture the error, if any.
\<close>

definition WithError :: "ChannelLog \<Rightarrow> string \<Rightarrow> string option \<Rightarrow> ChannelLog" where
  "WithError l d err = (case err of None \<Rightarrow> l | Some e \<Rightarrow> l\<lparr>log_Error := Some (d, e)\<rparr>)"

text \<open>
  The collaborators of \<open>SendMsg\<close>: \<open>handlers.GetTextAndAttachments\<close> and
  \<open>handlers.SplitMsg\<close>, the JSON encoder, \<open>http.NewRequest\<close> (a request pointer
  and an error, either of which may be \<open>nil\<close>), and what \<open>utils.MakeHTTPRequest\<close>
  answers to the request that is the \<open>i\<close>-th network call of the send.
\<close>

record tx_deps =
  handlers_GetTextAndAttachments :: "Msg \<Rightarrow> string"
  handlers_SplitMsg :: "string \<Rightarrow> nat \<Rightarrow> string list"
  json_Encode :: "mtMsg \<Rightarrow> string"
  http_NewRequest :: "string \<Rightarrow> string \<Rightarrow> string \<Rightarrow> Request option \<times> string option"
  utils_MakeHTTPRequest :: "nat \<Rightarrow> Request \<Rightarrow> RR \<times> string option"

text \<open>
  How \<open>SendMsg\<close> ends: it panics on a \<open>nil\<close> request, returns \<open>(nil, err)\<close>, or
  returns \<open>(status, nil)\<close>.
\<close>

datatype send_outcome =
    NilPointerPanic
  | ReturnedError string
  | ReturnedStatus MsgStatus

text \<open>
  The loop over the parts (lines 150 to 178), with the status and the requests
  given to the network so far; the empty list is the \<open>return status, nil\<close> after the
  loop. The two \<open>req.Header.Set\<close> calls come before the test of \<open>err\<close>, as in the
  source.
\<close>

fun send_parts ::
  "tx_deps \<Rightarrow> Msg \<Rightarrow> string \<Rightarrow> string \<Rightarrow> string \<Rightarrow> string list \<Rightarrow> MsgStatus \<Rightarrow> Request list
     \<Rightarrow> send_outcome \<times> Request list" where
  "send_parts env msg appID appSecret passphrase [] status calls = (ReturnedStatus status, calls)"
| "send_parts env msg appID appSecret passphrase (part # parts) status calls =
     (let glMsg = \<lparr>mt_Address = TrimPrefix (msg_URN_Path msg) ''+'', mt_Message = part,
                   mt_Passphrase = passphrase, mt_AppID = appID, mt_AppSecret = appSecret\<rparr>;
          requestBody = json_Encode env glMsg
      in case http_NewRequest env ''POST'' (sendURL (ch_Address (msg_Channel msg))) requestBody of
           (None, err) \<Rightarrow> (NilPointerPanic, calls)
         | (Some req0, err) \<Rightarrow>
             (let req = Header_Set (Header_Set req0 ''Content-Type'' ''application/json'')
                          ''Accept'' ''application/json''
              in case err of
                   Some e \<Rightarrow> (ReturnedError e, calls)
                 | None \<Rightarrow>
                     (case utils_MakeHTTPRequest env (length calls) req of
                        (rr, err') \<Rightarrow>
                          (let log = WithError
                                       (NewChannelLogFromRR ''Message Sent'' (msg_Channel msg)
                                          (msg_ID msg) rr)
                                       ''Message Send Error'' err';
                               status' = AddLog status log
                           in case err' of
                                Some e \<Rightarrow> (ReturnedStatus status', calls @ [req])
                              | None \<Rightarrow>
                                  send_parts env msg appID appSecret passphrase parts
                                    (SetStatus status' MsgWired) (calls @ [req])))))"

text \<open>\<open>SendMsg\<close> returns its outcome and the requests it gave to the network.\<close>

definition SendMsg :: "tx_deps \<Rightarrow> Msg \<Rightarrow> send_outcome \<times> Request list" where
  "SendMsg env msg =
     (let appID = StringConfigForKey (msg_Channel msg) configAppID '''' in
      if appID = '''' then (ReturnedError ''Missing 'app_id' config for GL channel'', [])
      else
        let appSecret = StringConfigForKey (msg_Channel msg) configAppSecret '''' in
        if appSecret = '''' then (ReturnedError ''Missing 'app_secret' config for GL channel'', [])
        else
          let passphrase = StringConfigForKey (msg_Channel msg) configPassphrase '''' in
          if passphrase = '''' then (ReturnedError ''Missing 'passphrase' config for GL channel'', [])
          else
            let status = NewMsgStatusForID (msg_Channel msg) (msg_ID msg) MsgErrored;
                parts = handlers_SplitMsg env (handlers_GetTextAndAttachments env msg) maxMsgLength
            in send_parts env msg appID appSecret passphrase parts status [])"

subsection \<open>Segmentation\<close>

text \<open>
  Modelled from the spec: \<open>handlers.SplitMsg\<close> is implemented outside this file;
  the spec gives segmentation as a split of the body "on a length boundary" into an
  ordered sequence of segments. Here a body that fits is one segment, and a longer
  one is cut after every \<open>mx\<close> characters. (With \<open>mx = 0\<close> nothing can be cut off;
  the handler calls it with \<open>maxMsgLength\<close>.)
\<close>

function SplitMsg :: "string \<Rightarrow> nat \<Rightarrow> string list" where
  "SplitMsg text mx =
     (if length text \<le> mx \<or> mx = 0 then [text]
      else take mx text # SplitMsg (drop mx text) mx)"
  by pat_completeness auto
termination
  by (relation "measure (\<lambda>(text, mx). length text)") auto

declare SplitMsg.simps [simp del]

subsection \<open>What the receive loop does with one entry\<close>

text \<open>
  The two checks of lines 92 to 99: the date parses with the layout and the sender
  has the prefix \<open>tel:\<close>.
\<close>

definition entry_valid :: "rx_deps \<Rightarrow> InboundSMSMessage \<Rightarrow> bool" where
  "entry_valid env e =
     (case time_Parse env dateLayout (DateTime e) of
        Inl err \<Rightarrow> False
      | Inr date \<Rightarrow> HasPrefix (SenderAddress e) ''tel:'')"

text \<open>The error that lines 94 and 98 report for an entry that fails a check.\<close>

definition entry_error :: "rx_deps \<Rightarrow> InboundSMSMessage \<Rightarrow> string" where
  "entry_error env e =
     (case time_Parse env dateLayout (DateTime e) of
        Inl err \<Rightarrow> err
      | Inr date \<Rightarrow> ''invalid 'senderAddress' parameter'')"

text \<open>The message that lines 101 and 102 build for an entry.\<close>

definition incoming_of :: "rx_deps \<Rightarrow> Channel \<Rightarrow> InboundSMSMessage \<Rightarrow> IncomingMsg" where
  "incoming_of env c e =
     \<lparr>in_Channel = ch_UUID c,
      in_URN = urns_NewTelURNForCountry env (drop 4 (SenderAddress e)) (ch_Country c),
      in_Text = Message e,
      in_ExternalID = MessageID e,
      in_ReceivedOn = (case time_Parse env dateLayout (DateTime e) of
                         Inl err \<Rightarrow> None | Inr date \<Rightarrow> Some date)\<rparr>"

subsection \<open>What the send loop does with one part\<close>

text \<open>
  Lines 151 to 162: the \<open>mtMsg\<close> of the part is encoded and given to
  \<open>http.NewRequest\<close> with the method and the URL of the channel.
\<close>

definition new_request ::
  "tx_deps \<Rightarrow> Msg \<Rightarrow> string \<Rightarrow> string \<Rightarrow> string \<Rightarrow> string \<Rightarrow> Request option \<times> string option" where
  "new_request env msg appID appSecret passphrase part =
     http_NewRequest env ''POST'' (sendURL (ch_Address (msg_Channel msg)))
       (json_Encode env
          \<lparr>mt_Address = TrimPrefix (msg_URN_Path msg) ''+'', mt_Message = part,
           mt_Passphrase = passphrase, mt_AppID = appID, mt_AppSecret = appSecret\<rparr>)"

text \<open>
  Lines 163 and 164: the request of the part with its two headers set; there is
  none when \<open>http.NewRequest\<close> handed back \<open>nil\<close>.
\<close>

definition part_request ::
  "tx_deps \<Rightarrow> Msg \<Rightarrow> string \<Rightarrow> string \<Rightarrow> string \<Rightarrow> string \<Rightarrow> Request option" where
  "part_request env msg appID appSecret passphrase part =
     (case fst (new_request env msg appID appSecret passphrase part) of
        None \<Rightarrow> None
      | Some req0 \<Rightarrow>
          Some (Header_Set (Header_Set req0 ''Content-Type'' ''application/json'')
                  ''Accept'' ''application/json''))"

text \<open>Line 170: the log entry for what \<open>utils.MakeHTTPRequest\<close> answered.\<close>

definition sent_log :: "Msg \<Rightarrow> RR \<times> string option \<Rightarrow> ChannelLog" where
  "sent_log msg answer =
     WithError (NewChannelLogFromRR ''Message Sent'' (msg_Channel msg) (msg_ID msg) (fst answer))
       ''Message Send Error'' (snd answer)"

subsection \<open>Concrete scenarios\<close>

text \<open>
  A channel with the three configuration keys, and stand-ins for the collaborators:
  they fix what the decoder, the clock parser, the backend and the network answer in
  the scenarios evaluated below.
\<close>

definition gl_channel :: Channel where
  "gl_channel =
     \<lparr>ch_UUID = ''8eb23e93-5ecb-45ba-b726-3b064e0c56ab'', ch_Country = ''PH'',
      ch_Address = ''2020'',
      ch_Config = [''app_id'' \<mapsto> ''my-app-id'', ''app_secret'' \<mapsto> ''my-app-secret'',
                   ''passphrase'' \<mapsto> ''my-passphrase'']\<rparr>"

text \<open>The same channel without its \<open>app_secret\<close>.\<close>

definition gl_channel_no_secret :: Channel where
  "gl_channel_no_secret =
     gl_channel\<lparr>ch_Config := [''app_id'' \<mapsto> ''my-app-id'', ''passphrase'' \<mapsto> ''my-passphrase'']\<rparr>"

text \<open>A body of 161 characters, and the message that carries it.\<close>

definition body161 :: string where
  "body161 = replicate 160 (CHR ''a'') @ ''b''"

definition msg161 :: Msg where
  "msg161 =
     \<lparr>msg_ID = 10, msg_Channel = gl_channel, msg_URN_Path = ''+639171234567'',
      msg_Text = body161, msg_Attachments = []\<rparr>"

definition encode_fields :: "mtMsg \<Rightarrow> string" where
  "encode_fields m =
     ''{address:'' @ mt_Address m @ '',message:'' @ mt_Message m @
     '',passphrase:'' @ mt_Passphrase m @ '',app_id:'' @ mt_AppID m @
     '',app_secret:'' @ mt_AppSecret m @ ''}''"

text \<open>\<open>http.NewRequest\<close> when the URL parses, and when it does not.\<close>

definition newRequest_ok :: "string \<Rightarrow> string \<Rightarrow> string \<Rightarrow> Request option \<times> string option" where
  "newRequest_ok m u b =
     (Some \<lparr>req_Method = m, req_URL = u, req_Header = [], req_Body = b\<rparr>, None)"

definition newRequest_invalid_url ::
  "string \<Rightarrow> string \<Rightarrow> string \<Rightarrow> Request option \<times> string option" where
  "newRequest_invalid_url m u b = (None, Some ''parse: invalid URL escape'')"

text \<open>
  A constructor that would hand back a request together with an error: the only
  kind for which line 166 can run.
\<close>

definition newRequest_with_error ::
  "string \<Rightarrow> string \<Rightarrow> string \<Rightarrow> Request option \<times> string option" where
  "newRequest_with_error m u b =
     (Some \<lparr>req_Method = m, req_URL = u, req_Header = [], req_Body = b\<rparr>,
      Some ''request rejected'')"

text \<open>A constructor that hands back \<open>nil\<close> for one body and a request for the others.\<close>

definition newRequest_nil_for ::
  "string \<Rightarrow> string \<Rightarrow> string \<Rightarrow> string \<Rightarrow> Request option \<times> string option" where
  "newRequest_nil_for body m u b =
     (if b = body then (None, Some ''request rejected'') else newRequest_ok m u b)"

text \<open>
  A network that answers its calls from a script, one outcome per call, and times
  out after the script.
\<close>

definition rr_none :: RR where
  "rr_none = \<lparr>rr_StatusCode = 0, rr_Body = []\<rparr>"

definition rr_created :: RR where
  "rr_created = \<lparr>rr_StatusCode = 201, rr_Body = ''{}''\<rparr>"

definition rr_vendor_error :: RR where
  "rr_vendor_error = \<lparr>rr_StatusCode = 401, rr_Body = ''{error:Invalid app_secret}''\<rparr>"

definition scripted_net :: "(RR \<times> string option) list \<Rightarrow> nat \<Rightarrow> Request \<Rightarrow> RR \<times> string option" where
  "scripted_net outs i req =
     (if i < length outs then outs ! i else (rr_none, Some ''request timed out''))"

definition fail_then_ok :: "(RR \<times> string option) list" where
  "fail_then_ok = [(rr_none, Some ''connection refused''), (rr_created, None)]"

definition vendor_error_then_fail :: "(RR \<times> string option) list" where
  "vendor_error_then_fail = [(rr_vendor_error, None), (rr_none, Some ''connection refused'')]"

definition tx_env ::
  "(string \<Rightarrow> string \<Rightarrow> string \<Rightarrow> Request option \<times> string option)
     \<Rightarrow> (RR \<times> string option) list \<Rightarrow> tx_deps" where
  "tx_env newRequest outs =
     \<lparr>handlers_GetTextAndAttachments = msg_Text, handlers_SplitMsg = SplitMsg,
      json_Encode = encode_fields, http_NewRequest = newRequest,
      utils_MakeHTTPRequest = scripted_net outs\<rparr>"

text \<open>The entry of the handler's own example payload, and two broken variants.\<close>

definition entry_hello :: InboundSMSMessage where
  "entry_hello =
     \<lparr>DateTime = ''Fri Nov 22 2013 12:12:13 GMT+0000 (UTC)'',
      DestinationAddress = ''tel:21581234'', MessageID = [], Message = ''Hello'',
      SenderAddress = ''tel:+639171234567''\<rparr>"

definition entry_no_tel :: InboundSMSMessage where
  "entry_no_tel = entry_hello\<lparr>Message := ''Second'', SenderAddress := ''+639171234567''\<rparr>"

definition entry_bad_date :: InboundSMSMessage where
  "entry_bad_date = entry_hello\<lparr>DateTime := ''2013-11-22T12:12:13Z'', Message := ''Third''\<rparr>"

definition batch :: "InboundSMSMessage list \<Rightarrow> moMsg" where
  "batch es = \<lparr>InboundSMSMessageList = \<lparr>InboundSMSMessage = es\<rparr>\<rparr>"

definition parse_example_date :: "string \<Rightarrow> string \<Rightarrow> string + Time" where
  "parse_example_date layout v =
     (if v = ''Fri Nov 22 2013 12:12:13 GMT+0000 (UTC)'' then Inr 1385122333
      else Inl ''parsing time: cannot parse'')"

definition tel_urn :: "string \<Rightarrow> string \<Rightarrow> URN" where
  "tel_urn number country = ''tel:'' @ number"

definition backend_up :: "IncomingMsg list \<Rightarrow> IncomingMsg \<Rightarrow> string option" where
  "backend_up calls m = None"

definition backend_down :: "IncomingMsg list \<Rightarrow> IncomingMsg \<Rightarrow> string option" where
  "backend_down calls m = Some ''database connection lost''"

definition writer_up :: "ack \<Rightarrow> string option" where
  "writer_up a = None"

text \<open>The decoder stand-in answers every body with the given batch.\<close>

definition rx_env ::
  "InboundSMSMessage list \<Rightarrow> (IncomingMsg list \<Rightarrow> IncomingMsg \<Rightarrow> string option) \<Rightarrow> rx_deps" where
  "rx_env es backend =
     \<lparr>handlers_DecodeAndValidateJSON = (\<lambda>r. Inr (batch es)), time_Parse = parse_example_date,
      urns_NewTelURNForCountry = tel_urn, backend_error = backend, writer_error = writer_up\<rparr>"

text \<open>The message persisted for \<open>entry_hello\<close>.\<close>

definition msg_hello :: IncomingMsg where
  "msg_hello =
     \<lparr>in_Channel = ''8eb23e93-5ecb-45ba-b726-3b064e0c56ab'', in_URN = ''tel:+639171234567'',
      in_Text = ''Hello'', in_ExternalID = [], in_ReceivedOn = Some 1385122333\<rparr>"

text \<open>
  The request, the log entry and the status that sending \<open>msg161\<close> over
  \<open>gl_channel\<close> produces for a part, an outcome of its call, and a final state.
\<close>

definition request161 :: "string \<Rightarrow> Request" where
  "request161 part =
     \<lparr>req_Method = ''POST'',
      req_URL = ''https://devapi.globelabs.com.ph/smsmessaging/v1/outbound/2020/requests'',
      req_Header = [(''Content-Type'', ''application/json''), (''Accept'', ''application/json'')],
      req_Body = encode_fields
                   \<lparr>mt_Address = ''639171234567'', mt_Message = part,
                    mt_Passphrase = ''my-passphrase'', mt_AppID = ''my-app-id'',
                    mt_AppSecret = ''my-app-secret''\<rparr>\<rparr>"

definition log161 :: "RR \<Rightarrow> (string \<times> string) option \<Rightarrow> ChannelLog" where
  "log161 rr err =
     \<lparr>log_Description = ''Message Sent'', log_Channel = ''8eb23e93-5ecb-45ba-b726-3b064e0c56ab'',
      log_MsgID = 10, log_RR = rr, log_Error = err\<rparr>"

definition status161 :: "MsgStatusValue \<Rightarrow> ChannelLog list \<Rightarrow> MsgStatus" where
  "status161 s logs =
     \<lparr>ms_Channel = ''8eb23e93-5ecb-45ba-b726-3b064e0c56ab'', ms_ID = 10, ms_Status = s,
      ms_Logs = logs\<rparr>"

text \<open>
  The body of the webhook call in the scenarios; the decoder stand-in fixes the
  batch it decodes to.
\<close>

definition webhook_body :: string where
  "webhook_body = ''{inboundSMSMessageList:...}''"

section \<open>Properties\<close>

subsection \<open>Segmentation\<close>

lemma concat_SplitMsg: "concat (SplitMsg body mx) = body"
proof (induction body mx rule: SplitMsg.induct)
  case (1 body mx)
  show ?case
  proof (cases "length body \<le> mx \<or> mx = 0")
    case True
    then show ?thesis by (subst SplitMsg.simps) simp
  next
    case False
    with "1" have "concat (SplitMsg (drop mx body) mx) = drop mx body" by simp
    with False show ?thesis by (subst SplitMsg.simps) simp
  qed
qed

lemma length_SplitMsg_part: "0 < mx \<Longrightarrow> s \<in> set (SplitMsg body mx) \<Longrightarrow> length s \<le> mx"
proof (induction body mx rule: SplitMsg.induct)
  case (1 body mx)
  show ?case
  proof (cases "length body \<le> mx \<or> mx = 0")
    case True
    with "1.prems" show ?thesis by (subst (asm) SplitMsg.simps) auto
  next
    case False
    from "1.prems"(2) False have "s = take mx body \<or> s \<in> set (SplitMsg (drop mx body) mx)"
      by (subst (asm) SplitMsg.simps) auto
    with "1.IH" [OF False] "1.prems"(1) show ?thesis by auto
  qed
qed

lemma SplitMsg_two:
  assumes "mx < length body" "length body \<le> 2 * mx"
  shows "SplitMsg body mx = [take mx body, drop mx body]"
proof -
  from assms have a: "\<not> (length body \<le> mx \<or> mx = 0)" by auto
  from assms have b: "length (drop mx body) \<le> mx \<or> mx = 0" by auto
  have "SplitMsg body mx = take mx body # SplitMsg (drop mx body) mx"
    using a by (subst SplitMsg.simps) simp
  also have "SplitMsg (drop mx body) mx = [drop mx body]"
    using b by (subst SplitMsg.simps) simp
  finally show ?thesis .
qed

text \<open>
  Claim C3. Segmentation with the maximum length 160 gives an ordered sequence of
  segments whose concatenation is the body, character for character, none of them
  longer than 160; a body of 161 characters gives exactly 2 segments, of 161
  characters in total. (\<open>SplitMsg\<close> is the segmentation modelled from the spec.)
\<close>

theorem C3_segmentation_lossless:
  "concat (SplitMsg body maxMsgLength) = body \<and>
   list_all (\<lambda>s. length s \<le> maxMsgLength) (SplitMsg body maxMsgLength) \<and>
   (length body = 161 \<longrightarrow>
      length (SplitMsg body maxMsgLength) = 2 \<and>
      sum_list (map length (SplitMsg body maxMsgLength)) = 161)"
proof (intro conjI impI)
  show "concat (SplitMsg body maxMsgLength) = body" by (rule concat_SplitMsg)
  show "list_all (\<lambda>s. length s \<le> maxMsgLength) (SplitMsg body maxMsgLength)"
    unfolding list_all_iff using length_SplitMsg_part [of maxMsgLength _ body]
    by (simp add: maxMsgLength_def)
next
  assume l: "length body = 161"
  then have s: "SplitMsg body maxMsgLength = [take 160 body, drop 160 body]"
    using SplitMsg_two [of maxMsgLength body] by (simp add: maxMsgLength_def)
  show "length (SplitMsg body maxMsgLength) = 2" by (simp add: s)
  show "sum_list (map length (SplitMsg body maxMsgLength)) = 161" using l by (simp add: s)
qed

text \<open>The same at a body of 161 letters.\<close>

theorem C3_segmentation_lossless_witness:
  "length (replicate 161 (CHR ''a'')) = 161 \<and>
   concat (SplitMsg (replicate 161 (CHR ''a'')) maxMsgLength) = replicate 161 (CHR ''a'') \<and>
   list_all (\<lambda>s. length s \<le> maxMsgLength) (SplitMsg (replicate 161 (CHR ''a'')) maxMsgLength) \<and>
   length (SplitMsg (replicate 161 (CHR ''a'')) maxMsgLength) = 2 \<and>
   sum_list (map length (SplitMsg (replicate 161 (CHR ''a'')) maxMsgLength)) = 161"
  using C3_segmentation_lossless [of "replicate 161 (CHR ''a'')"] by simp

subsection \<open>The send loop, one part at a time\<close>

lemma send_parts_Cons_cases [consumes 1, case_names panic reqerr failed sent]:
  assumes run: "send_parts env msg a s p (part # parts) st calls = (out, calls')"
  obtains
    (panic) "out = NilPointerPanic" "calls' = calls"
  | (reqerr) b r e where "http_NewRequest env ''POST'' (sendURL (ch_Address (msg_Channel msg))) b = (Some r, Some e)"
      "out = ReturnedError e" "calls' = calls"
  | (failed) req rr e st1 where "utils_MakeHTTPRequest env (length calls) req = (rr, Some e)"
      "out = ReturnedStatus st1" "calls' = calls @ [req]"
      "length (ms_Logs st1) = Suc (length (ms_Logs st))" "ms_Status st1 = ms_Status st"
  | (sent) req rr st1 where "utils_MakeHTTPRequest env (length calls) req = (rr, None)"
      "send_parts env msg a s p parts st1 (calls @ [req]) = (out, calls')"
      "length (ms_Logs st1) = Suc (length (ms_Logs st))" "ms_Status st1 = MsgWired"
proof -
  let ?b = "json_Encode env \<lparr>mt_Address = TrimPrefix (msg_URN_Path msg) ''+'', mt_Message = part,
                     mt_Passphrase = p, mt_AppID = a, mt_AppSecret = s\<rparr>"
  obtain r e where nr: "http_NewRequest env ''POST'' (sendURL (ch_Address (msg_Channel msg))) ?b = (r, e)"
    by (cases "http_NewRequest env ''POST'' (sendURL (ch_Address (msg_Channel msg))) ?b")
  show thesis
  proof (cases r)
    case None
    with nr run have "out = NilPointerPanic" "calls' = calls" by (simp_all add: Let_def)
    then show thesis by (rule panic)
  next
    case r: (Some req0)
    let ?req = "Header_Set (Header_Set req0 ''Content-Type'' ''application/json'') ''Accept'' ''application/json''"
    show thesis
    proof (cases e)
      case (Some x)
      with nr r run have "out = ReturnedError x" "calls' = calls" by (simp_all add: Let_def)
      with nr r Some show thesis by (intro reqerr [of ?b req0 x]) simp_all
    next
      case e: None
      obtain rr err where m: "utils_MakeHTTPRequest env (length calls) ?req = (rr, err)"
        by (cases "utils_MakeHTTPRequest env (length calls) ?req")
      let ?log = "WithError (NewChannelLogFromRR ''Message Sent'' (msg_Channel msg) (msg_ID msg) rr)
                    ''Message Send Error'' err"
      show thesis
      proof (cases err)
        case None
        with nr r e m run
        have "send_parts env msg a s p parts (SetStatus (AddLog st ?log) MsgWired) (calls @ [?req])
                = (out, calls')"
          by (simp add: Let_def)
        with m None show thesis
          by (intro sent [of ?req rr "SetStatus (AddLog st ?log) MsgWired"])
             (simp_all add: SetStatus_def AddLog_def)
      next
        case (Some x)
        with nr r e m run
        have "out = ReturnedStatus (AddLog st ?log)" "calls' = calls @ [?req]"
          by (simp_all add: Let_def)
        with m Some show thesis
          by (intro failed [of ?req rr x "AddLog st ?log"]) (simp_all add: AddLog_def)
      qed
    qed
  qed
qed

lemma send_parts_extends:
  "send_parts env msg a s p parts st calls = (out, calls') \<Longrightarrow>
     length calls \<le> length calls' \<and> take (length calls) calls' = calls \<and>
     length calls' \<le> length calls + length parts"
proof (induction parts arbitrary: st calls)
  case Nil
  then show ?case by simp
next
  case (Cons part parts)
  from Cons.prems show ?case
  proof (cases rule: send_parts_Cons_cases)
    case (sent req rr st1)
    from Cons.IH [OF sent(2)] show ?thesis
      by (auto dest: arg_cong [where f = "take (length calls)"])
  qed simp_all
qed

lemma nth_of_take_snoc:
  assumes "take (Suc (length ys)) xs = ys @ [x]" "Suc (length ys) \<le> length xs"
  shows "xs ! length ys = x"
proof -
  have "xs ! length ys = take (Suc (length ys)) xs ! length ys" by simp
  also have "\<dots> = x" by (simp only: assms(1) nth_append_length)
  finally show ?thesis .
qed

lemma send_parts_sent_head:
  assumes "send_parts env msg a s p parts st1 (calls @ [req]) = (out, calls')"
  shows "length calls < length calls' \<and> calls' ! length calls = req"
proof -
  from send_parts_extends [OF assms]
  have l: "Suc (length calls) \<le> length calls'" and t: "take (Suc (length calls)) calls' = calls @ [req]"
    by simp_all
  from nth_of_take_snoc [OF t l] l show ?thesis by simp
qed

lemma send_parts_logs:
  "send_parts env msg a s p parts st calls = (ReturnedStatus st', calls') \<Longrightarrow>
     length (ms_Logs st') + length calls = length (ms_Logs st) + length calls'"
proof (induction parts arbitrary: st calls)
  case Nil
  then show ?case by simp
next
  case (Cons part parts)
  from Cons.prems show ?case
  proof (cases rule: send_parts_Cons_cases)
    case (sent req rr st1)
    from Cons.IH [OF sent(2)] sent(3) show ?thesis by simp
  qed simp_all
qed

lemma send_parts_failure_last:
  "send_parts env msg a s p parts st calls = (ReturnedStatus st', calls') \<Longrightarrow>
     length calls \<le> i \<Longrightarrow> i < length calls' \<Longrightarrow>
     snd (utils_MakeHTTPRequest env i (calls' ! i)) \<noteq> None \<Longrightarrow> Suc i = length calls'"
proof (induction parts arbitrary: st calls)
  case Nil
  then show ?case by simp
next
  case (Cons part parts)
  from Cons.prems(1) show ?case
  proof (cases rule: send_parts_Cons_cases)
    case (failed req rr e st1)
    with Cons.prems show ?thesis by simp
  next
    case (sent req rr st1)
    from send_parts_sent_head [OF sent(2)] have h: "calls' ! length calls = req" by simp
    show ?thesis
    proof (cases "i = length calls")
      case True
      with h sent(1) Cons.prems(4) show ?thesis by simp
    next
      case False
      with Cons.prems(2) have "length (calls @ [req]) \<le> i" by simp
      from Cons.IH [OF sent(2) this Cons.prems(3) Cons.prems(4)] show ?thesis .
    qed
  qed simp_all
qed

lemma send_parts_short:
  "send_parts env msg a s p parts st calls = (ReturnedStatus st', calls') \<Longrightarrow>
     length calls' < length calls + length parts \<Longrightarrow>
     length calls < length calls' \<and>
     snd (utils_MakeHTTPRequest env (length calls' - 1) (calls' ! (length calls' - 1))) \<noteq> None"
proof (induction parts arbitrary: st calls)
  case Nil
  then show ?case by simp
next
  case (Cons part parts)
  from Cons.prems(1) show ?case
  proof (cases rule: send_parts_Cons_cases)
    case (failed req rr e st1)
    then show ?thesis by simp
  next
    case (sent req rr st1)
    from Cons.prems(2) have "length calls' < length (calls @ [req]) + length parts" by simp
    from Cons.IH [OF sent(2) this] show ?thesis by simp
  qed simp_all
qed

lemma send_parts_wired:
  "send_parts env msg a s p parts st calls = (ReturnedStatus st', calls') \<Longrightarrow>
     (ms_Status st' = MsgWired) =
     (ms_Status st = MsgWired \<or>
      (\<exists>i. length calls \<le> i \<and> i < length calls' \<and>
           snd (utils_MakeHTTPRequest env i (calls' ! i)) = None))"
proof (induction parts arbitrary: st calls)
  case Nil
  then show ?case by auto
next
  case (Cons part parts)
  from Cons.prems(1) show ?case
  proof (cases rule: send_parts_Cons_cases)
    case (failed req rr e st1)
    have "(\<exists>i. length calls \<le> i \<and> i < length calls' \<and>
              snd (utils_MakeHTTPRequest env i (calls' ! i)) = None) = False"
    proof (rule iffI)
      assume "\<exists>i. length calls \<le> i \<and> i < length calls' \<and>
              snd (utils_MakeHTTPRequest env i (calls' ! i)) = None"
      then obtain i where i: "length calls \<le> i" "i < length calls'"
        "snd (utils_MakeHTTPRequest env i (calls' ! i)) = None" by blast
      from i(1,2) failed(3) have "i = length calls" by simp
      with i(3) failed(1,3) show False by simp
    qed simp
    moreover from failed(2,5) have "ms_Status st' = ms_Status st" by simp
    ultimately show ?thesis by (simp only: simp_thms)
  next
    case (sent req rr st1)
    from send_parts_sent_head [OF sent(2)]
    have h: "length calls < length calls'" "calls' ! length calls = req" by simp_all
    from Cons.IH [OF sent(2)] sent(4) have "ms_Status st' = MsgWired" by simp
    moreover from h sent(1)
    have "\<exists>i. length calls \<le> i \<and> i < length calls' \<and>
              snd (utils_MakeHTTPRequest env i (calls' ! i)) = None"
      by (intro exI [of _ "length calls"]) simp
    ultimately show ?thesis by simp
  qed simp_all
qed

lemma send_parts_errored:
  "send_parts env msg a s p parts st calls = (ReturnedStatus st', calls') \<Longrightarrow>
     (ms_Status st' = MsgErrored) =
     (ms_Status st = MsgErrored \<and>
      (\<forall>i. length calls \<le> i \<and> i < length calls' \<longrightarrow>
           snd (utils_MakeHTTPRequest env i (calls' ! i)) \<noteq> None))"
proof (induction parts arbitrary: st calls)
  case Nil
  then show ?case by auto
next
  case (Cons part parts)
  from Cons.prems(1) show ?case
  proof (cases rule: send_parts_Cons_cases)
    case (failed req rr e st1)
    have all: "\<forall>i. length calls \<le> i \<and> i < length calls' \<longrightarrow>
              snd (utils_MakeHTTPRequest env i (calls' ! i)) \<noteq> None"
    proof (intro allI impI)
      fix i assume "length calls \<le> i \<and> i < length calls'"
      with failed(3) have "i = length calls" by simp
      with failed(1,3) show "snd (utils_MakeHTTPRequest env i (calls' ! i)) \<noteq> None" by simp
    qed
    from failed(2,5) have eq: "ms_Status st' = ms_Status st" by simp
    show ?thesis
    proof
      assume "ms_Status st' = MsgErrored"
      with eq all show "ms_Status st = MsgErrored \<and>
        (\<forall>i. length calls \<le> i \<and> i < length calls' \<longrightarrow>
              snd (utils_MakeHTTPRequest env i (calls' ! i)) \<noteq> None)" by simp
    next
      assume "ms_Status st = MsgErrored \<and>
        (\<forall>i. length calls \<le> i \<and> i < length calls' \<longrightarrow>
              snd (utils_MakeHTTPRequest env i (calls' ! i)) \<noteq> None)"
      with eq show "ms_Status st' = MsgErrored" by simp
    qed
  next
    case (sent req rr st1)
    from send_parts_sent_head [OF sent(2)]
    have h: "length calls < length calls'" "calls' ! length calls = req" by simp_all
    from Cons.IH [OF sent(2)] sent(4) have "ms_Status st' \<noteq> MsgErrored" by simp
    moreover from h sent(1)
    have "\<not> (\<forall>i. length calls \<le> i \<and> i < length calls' \<longrightarrow>
              snd (utils_MakeHTTPRequest env i (calls' ! i)) \<noteq> None)"
      by (auto intro!: exI [of _ "length calls"])
    ultimately show ?thesis by simp
  qed simp_all
qed

lemma send_parts_total:
  assumes "\<And>m u b. \<exists>r. http_NewRequest env m u b = (Some r, None)"
  shows "\<exists>st' calls'. send_parts env msg a s p parts st calls = (ReturnedStatus st', calls')"
proof (induction parts arbitrary: st calls)
  case Nil
  show ?case by simp
next
  case (Cons part parts)
  obtain r where "http_NewRequest env ''POST'' (sendURL (ch_Address (msg_Channel msg)))
       (json_Encode env \<lparr>mt_Address = TrimPrefix (msg_URN_Path msg) ''+'', mt_Message = part,
                     mt_Passphrase = p, mt_AppID = a, mt_AppSecret = s\<rparr>) = (Some r, None)"
    using assms by blast
  then show ?case using Cons.IH
    by (simp add: Let_def split: prod.splits option.splits)
qed

lemma send_parts_error_origin:
  "send_parts env msg a s p parts st calls = (ReturnedError e, calls') \<Longrightarrow>
     \<exists>b r. http_NewRequest env ''POST'' (sendURL (ch_Address (msg_Channel msg))) b = (Some r, Some e)"
proof (induction parts arbitrary: st calls)
  case Nil
  then show ?case by simp
next
  case (Cons part parts)
  from Cons.prems(1) show ?case
  proof (cases rule: send_parts_Cons_cases)
    case (reqerr b r e')
    then show ?thesis by auto
  next
    case (sent req rr st1)
    from Cons.IH [OF sent(2)] show ?thesis .
  qed simp_all
qed

lemma send_parts_nil_request:
  assumes "\<And>b. fst (http_NewRequest env ''POST'' (sendURL (ch_Address (msg_Channel msg))) b) = None"
  shows "send_parts env msg a s p (part # parts) st calls = (NilPointerPanic, calls)"
proof -
  let ?b = "json_Encode env \<lparr>mt_Address = TrimPrefix (msg_URN_Path msg) ''+'', mt_Message = part,
                     mt_Passphrase = p, mt_AppID = a, mt_AppSecret = s\<rparr>"
  obtain e where "http_NewRequest env ''POST'' (sendURL (ch_Address (msg_Channel msg))) ?b = (None, e)"
    using assms [of ?b] by (cases "http_NewRequest env ''POST'' (sendURL (ch_Address (msg_Channel msg))) ?b") simp
  then show ?thesis by (simp add: Let_def)
qed

subsection \<open>The send loop: which requests, in which order\<close>

lemma send_parts_nil:
  assumes "fst (new_request env msg a s p part) = None"
  shows "send_parts env msg a s p (part # parts) st calls = (NilPointerPanic, calls)"
proof -
  obtain e where "new_request env msg a s p part = (None, e)"
    using assms by (cases "new_request env msg a s p part") simp
  then show ?thesis by (simp add: new_request_def Let_def)
qed

lemma send_parts_request_error:
  assumes "new_request env msg a s p part = (Some req0, Some e)"
  shows "send_parts env msg a s p (part # parts) st calls = (ReturnedError e, calls)"
  using assms by (simp add: new_request_def Let_def)

lemma part_request_cases:
  assumes "snd (new_request env msg a s p part) = None"
      and "part_request env msg a s p part = Some req"
  obtains req0 where "new_request env msg a s p part = (Some req0, None)"
    and "req = Header_Set (Header_Set req0 ''Content-Type'' ''application/json'')
                 ''Accept'' ''application/json''"
  using assms
  by (cases "new_request env msg a s p part")
     (auto simp: part_request_def split: option.splits)

lemma send_parts_call_failed:
  assumes "snd (new_request env msg a s p part) = None"
      and "part_request env msg a s p part = Some req"
      and "snd (utils_MakeHTTPRequest env (length calls) req) = Some e"
  shows "send_parts env msg a s p (part # parts) st calls =
           (ReturnedStatus (AddLog st (sent_log msg (utils_MakeHTTPRequest env (length calls) req))),
            calls @ [req])"
proof -
  from assms(1,2) obtain req0 where
    n: "new_request env msg a s p part = (Some req0, None)" and
    r: "req = Header_Set (Header_Set req0 ''Content-Type'' ''application/json'')
                 ''Accept'' ''application/json''"
    by (rule part_request_cases)
  obtain rr where m: "utils_MakeHTTPRequest env (length calls) req = (rr, Some e)"
    using assms(3) by (cases "utils_MakeHTTPRequest env (length calls) req") simp
  from n m show ?thesis
    unfolding r by (simp add: new_request_def Let_def sent_log_def)
qed

lemma send_parts_call_sent:
  assumes "snd (new_request env msg a s p part) = None"
      and "part_request env msg a s p part = Some req"
      and "snd (utils_MakeHTTPRequest env (length calls) req) = None"
  shows "send_parts env msg a s p (part # parts) st calls =
           send_parts env msg a s p parts
             (SetStatus (AddLog st (sent_log msg (utils_MakeHTTPRequest env (length calls) req))) MsgWired)
             (calls @ [req])"
proof -
  from assms(1,2) obtain req0 where
    n: "new_request env msg a s p part = (Some req0, None)" and
    r: "req = Header_Set (Header_Set req0 ''Content-Type'' ''application/json'')
                 ''Accept'' ''application/json''"
    by (rule part_request_cases)
  obtain rr where m: "utils_MakeHTTPRequest env (length calls) req = (rr, None)"
    using assms(3) by (cases "utils_MakeHTTPRequest env (length calls) req") simp
  from n m show ?thesis
    unfolding r by (simp add: new_request_def Let_def sent_log_def)
qed

lemma send_parts_Cons_traced [consumes 1, case_names panic reqerr failed sent]:
  assumes run: "send_parts env msg a s p (part # parts) st calls = (out, calls')"
  obtains
    (panic) "fst (new_request env msg a s p part) = None" "out = NilPointerPanic" "calls' = calls"
  | (reqerr) req0 e where "new_request env msg a s p part = (Some req0, Some e)"
      "out = ReturnedError e" "calls' = calls"
  | (failed) req e where "part_request env msg a s p part = Some req"
      "snd (utils_MakeHTTPRequest env (length calls) req) = Some e"
      "out = ReturnedStatus (AddLog st (sent_log msg (utils_MakeHTTPRequest env (length calls) req)))"
      "calls' = calls @ [req]"
  | (sent) req where "part_request env msg a s p part = Some req"
      "snd (utils_MakeHTTPRequest env (length calls) req) = None"
      "send_parts env msg a s p parts
         (SetStatus (AddLog st (sent_log msg (utils_MakeHTTPRequest env (length calls) req))) MsgWired)
         (calls @ [req]) = (out, calls')"
proof (cases "new_request env msg a s p part")
  case (Pair r e)
  show thesis
  proof (cases r)
    case None
    with Pair have n: "fst (new_request env msg a s p part) = None" by simp
    from run show thesis unfolding send_parts_nil [OF n] by (intro panic [OF n]) simp_all
  next
    case r: (Some req0)
    show thesis
    proof (cases e)
      case (Some x)
      with Pair r have n: "new_request env msg a s p part = (Some req0, Some x)" by simp
      from run show thesis unfolding send_parts_request_error [OF n] by (intro reqerr [OF n]) simp_all
    next
      case e: None
      let ?req = "Header_Set (Header_Set req0 ''Content-Type'' ''application/json'')
                    ''Accept'' ''application/json''"
      from Pair r e have n: "snd (new_request env msg a s p part) = None"
        and q: "part_request env msg a s p part = Some ?req"
        by (simp_all add: part_request_def)
      show thesis
      proof (cases "snd (utils_MakeHTTPRequest env (length calls) ?req)")
        case None
        from run show thesis unfolding send_parts_call_sent [OF n q None]
          by (intro sent [OF q None])
      next
        case (Some x)
        from run show thesis unfolding send_parts_call_failed [OF n q Some]
          by (intro failed [OF q Some]) simp_all
      qed
    qed
  qed
qed

lemma send_parts_calls_are_parts:
  "send_parts env msg a s p parts st calls = (out, calls') \<Longrightarrow>
     map Some (drop (length calls) calls') =
       map (part_request env msg a s p) (take (length calls' - length calls) parts)"
proof (induction parts arbitrary: st calls)
  case Nil
  then show ?case by simp
next
  case (Cons part parts)
  from Cons.prems show ?case
  proof (cases rule: send_parts_Cons_traced)
    case (sent req)
    from send_parts_sent_head [OF sent(3)]
    have l: "length calls < length calls'" and h: "calls' ! length calls = req" by simp_all
    from l have d: "drop (length calls) calls' = req # drop (Suc (length calls)) calls'"
      using h Cons_nth_drop_Suc [of "length calls" calls'] by simp
    from l have n: "length calls' - length calls = Suc (length calls' - Suc (length calls))" by simp
    from Cons.IH [OF sent(3)] sent(1) show ?thesis
      unfolding d n by simp
  qed simp_all
qed

lemma send_parts_logs_are_calls:
  "send_parts env msg a s p parts st calls = (ReturnedStatus st', calls') \<Longrightarrow>
     ms_Logs st' =
       ms_Logs st @ map (\<lambda>i. sent_log msg (utils_MakeHTTPRequest env i (calls' ! i)))
                      [length calls..<length calls']"
proof (induction parts arbitrary: st calls)
  case Nil
  then show ?case by simp
next
  case (Cons part parts)
  from Cons.prems show ?case
  proof (cases rule: send_parts_Cons_traced)
    case (failed req e)
    then show ?thesis by (simp add: AddLog_def)
  next
    case (sent req)
    from send_parts_sent_head [OF sent(3)]
    have l: "length calls < length calls'" and h: "calls' ! length calls = req" by simp_all
    from l have u: "[length calls..<length calls'] = length calls # [Suc (length calls)..<length calls']"
      by (rule upt_conv_Cons)
    from Cons.IH [OF sent(3)] h show ?thesis
      unfolding u by (simp add: AddLog_def SetStatus_def)
  qed simp_all
qed

lemma send_parts_reaches:
  assumes "map Some reqs = map (part_request env msg a s p) pre"
      and "\<forall>i<length pre. snd (new_request env msg a s p (pre ! i)) = None \<and>
                           snd (utils_MakeHTTPRequest env (length calls + i) (reqs ! i)) = None"
  shows "\<exists>st'. send_parts env msg a s p (pre @ rest) st calls =
                send_parts env msg a s p rest st' (calls @ reqs)"
  using assms
proof (induction pre arbitrary: reqs st calls)
  case Nil
  then show ?case by auto
next
  case (Cons part pre)
  from Cons.prems(1) obtain req reqs' where
    rs: "reqs = req # reqs'" and q: "part_request env msg a s p part = Some req"
    and m: "map Some reqs' = map (part_request env msg a s p) pre"
    by (cases reqs) auto
  from Cons.prems(2) [rule_format, of 0]
  have n: "snd (new_request env msg a s p part) = None"
    and ok: "snd (utils_MakeHTTPRequest env (length calls) req) = None"
    by (simp_all add: rs)
  have tl: "\<forall>i<length pre. snd (new_request env msg a s p (pre ! i)) = None \<and>
              snd (utils_MakeHTTPRequest env (length (calls @ [req]) + i) (reqs' ! i)) = None"
  proof (intro allI impI)
    fix i assume "i < length pre"
    with Cons.prems(2) [rule_format, of "Suc i"]
    show "snd (new_request env msg a s p (pre ! i)) = None \<and>
          snd (utils_MakeHTTPRequest env (length (calls @ [req]) + i) (reqs' ! i)) = None"
      by (simp add: rs)
  qed
  from Cons.IH [OF m tl] obtain st' where
    "send_parts env msg a s p (pre @ rest)
       (SetStatus (AddLog st (sent_log msg (utils_MakeHTTPRequest env (length calls) req))) MsgWired)
       (calls @ [req]) = send_parts env msg a s p rest st' ((calls @ [req]) @ reqs')"
    by blast
  then have "send_parts env msg a s p ((part # pre) @ rest) st calls =
             send_parts env msg a s p rest st' (calls @ reqs)"
    using send_parts_call_sent [OF n q ok, of "pre @ rest" st] by (simp add: rs)
  then show ?case by blast
qed

lemma send_parts_panic_origin:
  "send_parts env msg a s p parts st calls = (NilPointerPanic, calls') \<Longrightarrow>
     \<exists>part \<in> set parts. fst (new_request env msg a s p part) = None"
proof (induction parts arbitrary: st calls)
  case Nil
  then show ?case by simp
next
  case (Cons part parts)
  from Cons.prems show ?case
  proof (cases rule: send_parts_Cons_traced)
    case panic
    then show ?thesis by simp
  next
    case (sent req)
    from Cons.IH [OF sent(3)] show ?thesis by simp
  qed simp_all
qed

subsection \<open>The scenarios, evaluated\<close>

lemma SplitMsg_body161: "SplitMsg body161 maxMsgLength = [replicate 160 (CHR ''a''), ''b'']"
proof -
  have "SplitMsg body161 160 = [take 160 body161, drop 160 body161]"
    by (rule SplitMsg_two) (simp_all add: body161_def)
  then show ?thesis by (simp add: maxMsgLength_def body161_def)
qed

lemma gl_channel_config:
  "StringConfigForKey gl_channel configAppID [] = ''my-app-id''"
  "StringConfigForKey gl_channel configAppSecret [] = ''my-app-secret''"
  "StringConfigForKey gl_channel configPassphrase [] = ''my-passphrase''"
  by (simp_all add: StringConfigForKey_def gl_channel_def configAppID_def configAppSecret_def
                    configPassphrase_def)

lemma gl_channel_fields:
  "ch_UUID gl_channel = ''8eb23e93-5ecb-45ba-b726-3b064e0c56ab''"
  "ch_Address gl_channel = ''2020''"
  by (simp_all add: gl_channel_def)

lemmas send161_defs =
  SendMsg_def Let_def msg161_def gl_channel_config gl_channel_fields tx_env_def SplitMsg_body161
  newRequest_ok_def scripted_net_def NewMsgStatusForID_def AddLog_def WithError_def
  NewChannelLogFromRR_def SetStatus_def Header_Set_def request161_def log161_def status161_def
  sendURL_def TrimPrefix_def HasPrefix_def

lemma SendMsg_fail_then_ok:
  "SendMsg (tx_env newRequest_ok fail_then_ok) msg161 =
     (ReturnedStatus
        (status161 MsgErrored [log161 rr_none (Some (''Message Send Error'', ''connection refused''))]),
      [request161 (replicate 160 (CHR ''a''))])"
  by (simp add: send161_defs fail_then_ok_def)

lemma SendMsg_vendor_error_then_fail:
  "SendMsg (tx_env newRequest_ok vendor_error_then_fail) msg161 =
     (ReturnedStatus
        (status161 MsgWired
           [log161 rr_vendor_error None,
            log161 rr_none (Some (''Message Send Error'', ''connection refused''))]),
      [request161 (replicate 160 (CHR ''a'')), request161 ''b''])"
  by (simp add: send161_defs vendor_error_then_fail_def)

lemma part_request161:
  "part_request (tx_env newRequest_ok outs) msg161 ''my-app-id'' ''my-app-secret'' ''my-passphrase'' part
     = Some (request161 part)"
  "snd (new_request (tx_env newRequest_ok outs) msg161 ''my-app-id'' ''my-app-secret''
          ''my-passphrase'' part) = None"
  by (simp_all add: part_request_def new_request_def tx_env_def newRequest_ok_def msg161_def
                    gl_channel_fields Header_Set_def request161_def sendURL_def TrimPrefix_def
                    HasPrefix_def)

lemma sent_log161:
  "sent_log msg161 (rr, None) = log161 rr None"
  "sent_log msg161 (rr, Some e) = log161 rr (Some (''Message Send Error'', e))"
  by (simp_all add: sent_log_def log161_def WithError_def NewChannelLogFromRR_def msg161_def
                    gl_channel_fields)

lemma first_part_differs: "replicate 160 (CHR ''a'') \<noteq> ''b''"
proof
  assume "replicate 160 (CHR ''a'') = ''b''"
  then have "length (replicate 160 (CHR ''a'')) = length ''b''" by (rule arg_cong)
  then show False by simp
qed

lemma SendMsg_nil_for_second:
  "SendMsg (tx_env (newRequest_nil_for (req_Body (request161 ''b''))) vendor_error_then_fail) msg161 =
     (NilPointerPanic, [request161 (replicate 160 (CHR ''a''))])"
  by (simp add: send161_defs vendor_error_then_fail_def newRequest_nil_for_def encode_fields_def
                first_part_differs)

lemma nil_for_second_requests:
  "part_request (tx_env (newRequest_nil_for (req_Body (request161 ''b''))) outs) msg161
     ''my-app-id'' ''my-app-secret'' ''my-passphrase'' (replicate 160 (CHR ''a''))
     = Some (request161 (replicate 160 (CHR ''a'')))"
  "snd (new_request (tx_env (newRequest_nil_for (req_Body (request161 ''b''))) outs) msg161
          ''my-app-id'' ''my-app-secret'' ''my-passphrase'' (replicate 160 (CHR ''a''))) = None"
  "fst (new_request (tx_env (newRequest_nil_for (req_Body (request161 ''b''))) outs) msg161
          ''my-app-id'' ''my-app-secret'' ''my-passphrase'' ''b'') = None"
  by (simp_all add: part_request_def new_request_def tx_env_def newRequest_nil_for_def
                    newRequest_ok_def msg161_def gl_channel_fields Header_Set_def request161_def
                    sendURL_def TrimPrefix_def HasPrefix_def encode_fields_def first_part_differs)

subsection \<open>Sending: the claims\<close>

lemma SendMsg_status_run:
  assumes "SendMsg env msg = (ReturnedStatus st, calls)"
  shows "send_parts env msg (StringConfigForKey (msg_Channel msg) configAppID '''')
           (StringConfigForKey (msg_Channel msg) configAppSecret '''')
           (StringConfigForKey (msg_Channel msg) configPassphrase '''')
           (handlers_SplitMsg env (handlers_GetTextAndAttachments env msg) maxMsgLength)
           (NewMsgStatusForID (msg_Channel msg) (msg_ID msg) MsgErrored) []
         = (ReturnedStatus st, calls)"
  using assms by (auto simp: SendMsg_def Let_def split: if_splits)

lemma SendMsg_status_unfold:
  assumes "SendMsg env msg = (ReturnedStatus st, calls)"
  shows "\<exists>a s p. send_parts env msg a s p
                   (handlers_SplitMsg env (handlers_GetTextAndAttachments env msg) maxMsgLength)
                   (NewMsgStatusForID (msg_Channel msg) (msg_ID msg) MsgErrored) []
                 = (ReturnedStatus st, calls)"
  using assms by (auto simp: SendMsg_def Let_def split: if_splits)

lemma SendMsg_config_ok_unfold:
  assumes "StringConfigForKey (msg_Channel msg) configAppID '''' \<noteq> ''''"
      and "StringConfigForKey (msg_Channel msg) configAppSecret '''' \<noteq> ''''"
      and "StringConfigForKey (msg_Channel msg) configPassphrase '''' \<noteq> ''''"
  shows "SendMsg env msg =
           send_parts env msg (StringConfigForKey (msg_Channel msg) configAppID '''')
             (StringConfigForKey (msg_Channel msg) configAppSecret '''')
             (StringConfigForKey (msg_Channel msg) configPassphrase '''')
             (handlers_SplitMsg env (handlers_GetTextAndAttachments env msg) maxMsgLength)
             (NewMsgStatusForID (msg_Channel msg) (msg_ID msg) MsgErrored) []"
  using assms by (simp add: SendMsg_def Let_def)

lemma SendMsg_wired_iff:
  assumes "SendMsg env msg = (ReturnedStatus st, calls)"
  shows "(ms_Status st = MsgWired) =
         (\<exists>i<length calls. snd (utils_MakeHTTPRequest env i (calls ! i)) = None)"
proof -
  from SendMsg_status_unfold [OF assms] obtain a s p where
    "send_parts env msg a s p
       (handlers_SplitMsg env (handlers_GetTextAndAttachments env msg) maxMsgLength)
       (NewMsgStatusForID (msg_Channel msg) (msg_ID msg) MsgErrored) [] = (ReturnedStatus st, calls)"
    by blast
  from send_parts_wired [OF this] show ?thesis by (simp add: NewMsgStatusForID_def)
qed

lemma SendMsg_errored_iff:
  assumes "SendMsg env msg = (ReturnedStatus st, calls)"
  shows "(ms_Status st = MsgErrored) =
         (\<forall>i<length calls. snd (utils_MakeHTTPRequest env i (calls ! i)) \<noteq> None)"
proof -
  from SendMsg_status_unfold [OF assms] obtain a s p where
    "send_parts env msg a s p
       (handlers_SplitMsg env (handlers_GetTextAndAttachments env msg) maxMsgLength)
       (NewMsgStatusForID (msg_Channel msg) (msg_ID msg) MsgErrored) [] = (ReturnedStatus st, calls)"
    by blast
  from send_parts_errored [OF this] show ?thesis by (simp add: NewMsgStatusForID_def)
qed

text \<open>
  Claim C1, as the code has it. The parts are attempted in their order: the calls of
  a send are the requests built for its first parts, one call per part, call \<open>i\<close>
  for part \<open>i\<close>, and the log of the status holds one entry per call, entry \<open>i\<close>
  recording what the network answered to call \<open>i\<close>. The send stops at the first part
  whose network call fails: a failed call is the last call made, so the parts after
  it are never attempted, and parts are left out only after such a failure. For the
  two parts \<open>[A, B]\<close> of which the call of \<open>A\<close> fails, the only call made is the
  request of \<open>A\<close>, the log is its one entry and the status is Errored.
\<close>

theorem C1_send_stops_at_first_failure:
  assumes "SendMsg env msg = (ReturnedStatus st, calls)"
      and "parts = handlers_SplitMsg env (handlers_GetTextAndAttachments env msg) maxMsgLength"
      and "appID = StringConfigForKey (msg_Channel msg) configAppID ''''"
      and "appSecret = StringConfigForKey (msg_Channel msg) configAppSecret ''''"
      and "passphrase = StringConfigForKey (msg_Channel msg) configPassphrase ''''"
  shows "map Some calls = map (part_request env msg appID appSecret passphrase) (take (length calls) parts) \<and>
         ms_Logs st = map (\<lambda>i. sent_log msg (utils_MakeHTTPRequest env i (calls ! i))) [0..<length calls] \<and>
         length (ms_Logs st) = length calls \<and>
         length calls \<le> length parts \<and>
         (\<forall>i<length calls. snd (utils_MakeHTTPRequest env i (calls ! i)) \<noteq> None \<longrightarrow> Suc i = length calls) \<and>
         (length calls < length parts \<longrightarrow>
            calls \<noteq> [] \<and>
            snd (utils_MakeHTTPRequest env (length calls - 1) (calls ! (length calls - 1))) \<noteq> None) \<and>
         (length parts = 2 \<and> snd (utils_MakeHTTPRequest env 0 (calls ! 0)) \<noteq> None \<longrightarrow>
            length calls = 1 \<and> length (ms_Logs st) = 1 \<and> ms_Status st = MsgErrored) \<and>
         (parts = [partA, partB] \<and> snd (utils_MakeHTTPRequest env 0 (calls ! 0)) \<noteq> None \<longrightarrow>
            map Some calls = [part_request env msg appID appSecret passphrase partA] \<and>
            ms_Logs st = [sent_log msg (utils_MakeHTTPRequest env 0 (calls ! 0))] \<and>
            ms_Status st = MsgErrored)"
proof -
  from SendMsg_status_run [OF assms(1)]
  have run: "send_parts env msg appID appSecret passphrase parts
               (NewMsgStatusForID (msg_Channel msg) (msg_ID msg) MsgErrored) [] = (ReturnedStatus st, calls)"
    by (simp only: assms(2-5))
  from send_parts_calls_are_parts [OF run]
  have tie: "map Some calls = map (part_request env msg appID appSecret passphrase) (take (length calls) parts)"
    by simp
  from send_parts_logs_are_calls [OF run]
  have tlogs: "ms_Logs st = map (\<lambda>i. sent_log msg (utils_MakeHTTPRequest env i (calls ! i))) [0..<length calls]"
    by (simp add: NewMsgStatusForID_def)
  from send_parts_logs [OF run]
  have logs: "length (ms_Logs st) = length calls" by (simp add: NewMsgStatusForID_def)
  from send_parts_extends [OF run]
  have le: "length calls \<le> length parts" by simp
  have last: "\<forall>i<length calls. snd (utils_MakeHTTPRequest env i (calls ! i)) \<noteq> None \<longrightarrow> Suc i = length calls"
    using send_parts_failure_last [OF run] by simp
  have short: "length calls < length parts \<longrightarrow>
            calls \<noteq> [] \<and>
            snd (utils_MakeHTTPRequest env (length calls - 1) (calls ! (length calls - 1))) \<noteq> None"
    using send_parts_short [OF run] by auto
  have two: "length calls = 1 \<and> length (ms_Logs st) = 1 \<and> ms_Status st = MsgErrored"
    if p: "length parts = 2" and f: "snd (utils_MakeHTTPRequest env 0 (calls ! 0)) \<noteq> None"
  proof -
    have "calls \<noteq> []"
    proof (cases "length calls < length parts")
      case True
      with short show ?thesis by simp
    next
      case False
      with le p show ?thesis by auto
    qed
    then have "0 < length calls" by simp
    with last f have one: "length calls = 1" by auto
    from one f have "\<forall>i<length calls. snd (utils_MakeHTTPRequest env i (calls ! i)) \<noteq> None"
      by simp
    with SendMsg_errored_iff [OF assms(1)] have "ms_Status st = MsgErrored" by simp
    with one logs show ?thesis by simp
  qed
  have ab: "map Some calls = [part_request env msg appID appSecret passphrase partA] \<and>
            ms_Logs st = [sent_log msg (utils_MakeHTTPRequest env 0 (calls ! 0))] \<and>
            ms_Status st = MsgErrored"
    if p: "parts = [partA, partB]" and f: "snd (utils_MakeHTTPRequest env 0 (calls ! 0)) \<noteq> None"
  proof -
    from p have "length parts = 2" by simp
    from two [OF this f] have one: "length calls = 1" and e: "ms_Status st = MsgErrored" by simp_all
    from tie one p have "map Some calls = [part_request env msg appID appSecret passphrase partA]"
      by simp
    moreover from tlogs one have "ms_Logs st = [sent_log msg (utils_MakeHTTPRequest env 0 (calls ! 0))]"
      by simp
    ultimately show ?thesis using e by simp
  qed
  from tie tlogs logs le last short two ab show ?thesis by blast
qed

text \<open>
  The same on the 161-character message over a network whose first call fails and
  whose second would succeed.
\<close>

theorem C1_send_stops_at_first_failure_witness:
  "SendMsg (tx_env newRequest_ok fail_then_ok) msg161 =
     (ReturnedStatus
        (status161 MsgErrored [log161 rr_none (Some (''Message Send Error'', ''connection refused''))]),
      [request161 (replicate 160 (CHR ''a''))]) \<and>
   handlers_SplitMsg (tx_env newRequest_ok fail_then_ok)
     (handlers_GetTextAndAttachments (tx_env newRequest_ok fail_then_ok) msg161) maxMsgLength
     = [replicate 160 (CHR ''a''), ''b''] \<and>
   snd (utils_MakeHTTPRequest (tx_env newRequest_ok fail_then_ok) 0
          ([request161 (replicate 160 (CHR ''a''))] ! 0)) \<noteq> None \<and>
   map Some [request161 (replicate 160 (CHR ''a''))] =
     [part_request (tx_env newRequest_ok fail_then_ok) msg161 ''my-app-id'' ''my-app-secret''
        ''my-passphrase'' (replicate 160 (CHR ''a''))] \<and>
   ms_Logs (status161 MsgErrored
             [log161 rr_none (Some (''Message Send Error'', ''connection refused''))]) =
     [sent_log msg161 (utils_MakeHTTPRequest (tx_env newRequest_ok fail_then_ok) 0
                         ([request161 (replicate 160 (CHR ''a''))] ! 0))] \<and>
   ms_Status (status161 MsgErrored
             [log161 rr_none (Some (''Message Send Error'', ''connection refused''))]) = MsgErrored"
  using C1_send_stops_at_first_failure
          [OF SendMsg_fail_then_ok,
           where parts = "[replicate 160 (CHR ''a''), ''b'']" and appID = "''my-app-id''"
             and appSecret = "''my-app-secret''" and passphrase = "''my-passphrase''"
             and partA = "replicate 160 (CHR ''a'')" and partB = "''b''"]
        SendMsg_fail_then_ok
  by (simp add: tx_env_def SplitMsg_body161 msg161_def gl_channel_config scripted_net_def
                fail_then_ok_def)

text \<open>
  Claim C1, as stated, fails. The message splits into two parts, the first call
  fails and the second would succeed; the send returns after the first call with
  the status Errored, one log entry and one request made, not Wired with two.
\<close>

theorem C1_counterexample:
  "handlers_SplitMsg (tx_env newRequest_ok fail_then_ok)
     (handlers_GetTextAndAttachments (tx_env newRequest_ok fail_then_ok) msg161) maxMsgLength
     = [replicate 160 (CHR ''a''), ''b''] \<and>
   snd (utils_MakeHTTPRequest (tx_env newRequest_ok fail_then_ok) 0
          (request161 (replicate 160 (CHR ''a'')))) = Some ''connection refused'' \<and>
   snd (utils_MakeHTTPRequest (tx_env newRequest_ok fail_then_ok) 1 (request161 ''b'')) = None \<and>
   fst (SendMsg (tx_env newRequest_ok fail_then_ok) msg161) =
     ReturnedStatus
       (status161 MsgErrored [log161 rr_none (Some (''Message Send Error'', ''connection refused''))]) \<and>
   ms_Status (status161 MsgErrored
       [log161 rr_none (Some (''Message Send Error'', ''connection refused''))]) \<noteq> MsgWired \<and>
   length (ms_Logs (status161 MsgErrored
       [log161 rr_none (Some (''Message Send Error'', ''connection refused''))])) = 1 \<and>
   snd (SendMsg (tx_env newRequest_ok fail_then_ok) msg161) = [request161 (replicate 160 (CHR ''a''))]"
  using SendMsg_fail_then_ok
  by (simp add: tx_env_def SplitMsg_body161 msg161_def scripted_net_def fail_then_ok_def status161_def)

text \<open>
  Claim C4. A send that passes the configuration checks and whose requests can be
  built returns a status. That status starts as Errored and is Wired exactly when at
  least one network call of the send completed without a transport error, whatever
  the response said; it is Errored exactly when no call did (in particular when no
  call was made).
\<close>

theorem C4_wired_iff_some_call_succeeded:
  "(StringConfigForKey (msg_Channel msg) configAppID '''' \<noteq> '''' \<and>
    StringConfigForKey (msg_Channel msg) configAppSecret '''' \<noteq> '''' \<and>
    StringConfigForKey (msg_Channel msg) configPassphrase '''' \<noteq> '''' \<and>
    (\<forall>m u b. \<exists>r. http_NewRequest env m u b = (Some r, None)) \<longrightarrow>
      (\<exists>st calls. SendMsg env msg = (ReturnedStatus st, calls))) \<and>
   (SendMsg env msg = (ReturnedStatus st, calls) \<longrightarrow>
      (calls = [] \<longrightarrow> ms_Status st = MsgErrored) \<and>
      (ms_Status st = MsgWired) =
        (\<exists>i<length calls. snd (utils_MakeHTTPRequest env i (calls ! i)) = None) \<and>
      (ms_Status st = MsgErrored) =
        (\<forall>i<length calls. snd (utils_MakeHTTPRequest env i (calls ! i)) \<noteq> None))"
proof (intro conjI impI)
  assume ok: "StringConfigForKey (msg_Channel msg) configAppID '''' \<noteq> '''' \<and>
    StringConfigForKey (msg_Channel msg) configAppSecret '''' \<noteq> '''' \<and>
    StringConfigForKey (msg_Channel msg) configPassphrase '''' \<noteq> '''' \<and>
    (\<forall>m u b. \<exists>r. http_NewRequest env m u b = (Some r, None))"
  then have "\<And>m u b. \<exists>r. http_NewRequest env m u b = (Some r, None)" by blast
  from send_parts_total [of env, OF this] ok
  show "\<exists>st calls. SendMsg env msg = (ReturnedStatus st, calls)"
    by (simp add: SendMsg_config_ok_unfold)
next
  assume run: "SendMsg env msg = (ReturnedStatus st, calls)"
  show "ms_Status st = MsgErrored" if "calls = []"
    using SendMsg_errored_iff [OF run] that by simp
  show "(ms_Status st = MsgWired) =
        (\<exists>i<length calls. snd (utils_MakeHTTPRequest env i (calls ! i)) = None)"
    by (rule SendMsg_wired_iff [OF run])
  show "(ms_Status st = MsgErrored) =
        (\<forall>i<length calls. snd (utils_MakeHTTPRequest env i (calls ! i)) \<noteq> None)"
    by (rule SendMsg_errored_iff [OF run])
qed

text \<open>
  The same on the 161-character message: the first call completes although the
  vendor answers 401 with an error in the body, the second call fails; the status is
  Wired.
\<close>

theorem C4_wired_iff_some_call_succeeded_witness:
  "StringConfigForKey (msg_Channel msg161) configAppID '''' \<noteq> '''' \<and>
   StringConfigForKey (msg_Channel msg161) configAppSecret '''' \<noteq> '''' \<and>
   StringConfigForKey (msg_Channel msg161) configPassphrase '''' \<noteq> '''' \<and>
   (\<forall>m u b. \<exists>r. http_NewRequest (tx_env newRequest_ok vendor_error_then_fail) m u b = (Some r, None)) \<and>
   SendMsg (tx_env newRequest_ok vendor_error_then_fail) msg161 =
     (ReturnedStatus
        (status161 MsgWired
           [log161 rr_vendor_error None,
            log161 rr_none (Some (''Message Send Error'', ''connection refused''))]),
      [request161 (replicate 160 (CHR ''a'')), request161 ''b'']) \<and>
   fst (utils_MakeHTTPRequest (tx_env newRequest_ok vendor_error_then_fail) 0
          (request161 (replicate 160 (CHR ''a'')))) = rr_vendor_error \<and>
   (\<exists>i<length [request161 (replicate 160 (CHR ''a'')), request161 ''b''].
      snd (utils_MakeHTTPRequest (tx_env newRequest_ok vendor_error_then_fail) i
             ([request161 (replicate 160 (CHR ''a'')), request161 ''b''] ! i)) = None)"
  using C4_wired_iff_some_call_succeeded
          [of msg161 "tx_env newRequest_ok vendor_error_then_fail"
              "status161 MsgWired
                 [log161 rr_vendor_error None,
                  log161 rr_none (Some (''Message Send Error'', ''connection refused''))]"
              "[request161 (replicate 160 (CHR ''a'')), request161 ''b'']"]
        SendMsg_vendor_error_then_fail
  by (simp add: msg161_def gl_channel_config status161_def tx_env_def scripted_net_def
                vendor_error_then_fail_def newRequest_ok_def)

lemma StringConfigForKey_absent:
  "ch_Config c k = None \<Longrightarrow> StringConfigForKey c k d = d"
  by (simp add: StringConfigForKey_def)

text \<open>
  Claim C6. When the channel configuration lacks one of \<open>app_id\<close>, \<open>app_secret\<close>,
  \<open>passphrase\<close>, the send returns one of the three configuration errors and no
  status, with no network call made; the outcome is the same whatever the
  collaborators would answer, so no part is split off, encoded or sent.
\<close>

theorem C6_missing_config_fails_fast:
  assumes "k \<in> {configAppID, configAppSecret, configPassphrase}"
      and "ch_Config (msg_Channel msg) k = None"
  shows "(\<exists>e \<in> {''Missing 'app_id' config for GL channel'',
                 ''Missing 'app_secret' config for GL channel'',
                 ''Missing 'passphrase' config for GL channel''}.
            SendMsg env msg = (ReturnedError e, [])) \<and>
         SendMsg env' msg = SendMsg env msg"
proof -
  from assms have "StringConfigForKey (msg_Channel msg) configAppID '''' = '''' \<or>
                   StringConfigForKey (msg_Channel msg) configAppSecret '''' = '''' \<or>
                   StringConfigForKey (msg_Channel msg) configPassphrase '''' = ''''"
    by (auto simp: StringConfigForKey_absent)
  then show ?thesis by (auto simp: SendMsg_def Let_def)
qed

text \<open>The same on a channel that has no \<open>app_secret\<close>.\<close>

theorem C6_missing_config_fails_fast_witness:
  "configAppSecret \<in> {configAppID, configAppSecret, configPassphrase} \<and>
   ch_Config (msg_Channel (msg161\<lparr>msg_Channel := gl_channel_no_secret\<rparr>)) configAppSecret = None \<and>
   SendMsg (tx_env newRequest_ok fail_then_ok) (msg161\<lparr>msg_Channel := gl_channel_no_secret\<rparr>) =
     (ReturnedError ''Missing 'app_secret' config for GL channel'', [])"
proof -
  have k: "configAppSecret \<in> {configAppID, configAppSecret, configPassphrase}" by simp
  have c: "ch_Config (msg_Channel (msg161\<lparr>msg_Channel := gl_channel_no_secret\<rparr>)) configAppSecret = None"
    by (simp add: gl_channel_no_secret_def configAppSecret_def)
  have e: "SendMsg (tx_env newRequest_ok fail_then_ok) (msg161\<lparr>msg_Channel := gl_channel_no_secret\<rparr>) =
     (ReturnedError ''Missing 'app_secret' config for GL channel'', [])"
    by (simp add: SendMsg_def Let_def StringConfigForKey_def gl_channel_no_secret_def
                  configAppID_def configAppSecret_def)
  from C6_missing_config_fails_fast
         [OF k c, where env = "tx_env newRequest_ok fail_then_ok"
            and env' = "tx_env newRequest_ok fail_then_ok"] k c e
  show ?thesis by simp
qed

text \<open>
  Claim C9. The headers are set on the request before the error of
  \<open>http.NewRequest\<close> is tested. So at every turn of the loop, whatever the status
  and the calls made so far, a \<open>nil\<close> request for the part at hand ends the send in a
  nil pointer dereference with no further call; a send whose earlier parts went out
  panics at the first part for which \<open>http.NewRequest\<close> hands back \<open>nil\<close>, and a send
  panics only for such a part. The error branch of line 165 is taken only if
  \<open>http.NewRequest\<close> handed back a request together with its error, so it is never
  taken when every error of \<open>http.NewRequest\<close> comes with a \<open>nil\<close> request.
\<close>

theorem C9_nil_request_dereferenced_before_error_check:
  assumes "appID = StringConfigForKey (msg_Channel msg) configAppID ''''" and "appID \<noteq> ''''"
      and "appSecret = StringConfigForKey (msg_Channel msg) configAppSecret ''''" and "appSecret \<noteq> ''''"
      and "passphrase = StringConfigForKey (msg_Channel msg) configPassphrase ''''" and "passphrase \<noteq> ''''"
      and "parts = handlers_SplitMsg env (handlers_GetTextAndAttachments env msg) maxMsgLength"
  shows "(fst (new_request env msg appID appSecret passphrase part) = None \<longrightarrow>
            send_parts env msg appID appSecret passphrase (part # rest) status calls
              = (NilPointerPanic, calls)) \<and>
         (parts = pre @ part # post \<and>
          map Some reqs = map (part_request env msg appID appSecret passphrase) pre \<and>
          (\<forall>i<length pre. snd (new_request env msg appID appSecret passphrase (pre ! i)) = None \<and>
                            snd (utils_MakeHTTPRequest env i (reqs ! i)) = None) \<and>
          fst (new_request env msg appID appSecret passphrase part) = None \<longrightarrow>
            SendMsg env msg = (NilPointerPanic, reqs)) \<and>
         (fst (SendMsg env msg) = NilPointerPanic \<longrightarrow>
            (\<exists>part' \<in> set parts. fst (new_request env msg appID appSecret passphrase part') = None)) \<and>
         ((\<forall>b. fst (http_NewRequest env ''POST'' (sendURL (ch_Address (msg_Channel msg))) b) = None) \<and>
          parts \<noteq> [] \<longrightarrow>
            SendMsg env msg = (NilPointerPanic, [])) \<and>
         (fst (SendMsg env msg) = ReturnedError e \<longrightarrow>
            (\<exists>b r. http_NewRequest env ''POST'' (sendURL (ch_Address (msg_Channel msg))) b
                     = (Some r, Some e))) \<and>
         ((\<forall>b. snd (http_NewRequest env ''POST'' (sendURL (ch_Address (msg_Channel msg))) b) \<noteq> None \<longrightarrow>
               fst (http_NewRequest env ''POST'' (sendURL (ch_Address (msg_Channel msg))) b) = None) \<longrightarrow>
            fst (SendMsg env msg) \<noteq> ReturnedError e)"
proof -
  have cfg: "StringConfigForKey (msg_Channel msg) configAppID '''' \<noteq> ''''"
    "StringConfigForKey (msg_Channel msg) configAppSecret '''' \<noteq> ''''"
    "StringConfigForKey (msg_Channel msg) configPassphrase '''' \<noteq> ''''"
    using assms(1-6) by simp_all
  have unfold: "SendMsg env msg =
      send_parts env msg appID appSecret passphrase parts
        (NewMsgStatusForID (msg_Channel msg) (msg_ID msg) MsgErrored) []"
    by (simp only: SendMsg_config_ok_unfold [OF cfg] assms(1,3,5,7))
  have c1: "send_parts env msg appID appSecret passphrase (part # rest) status calls
              = (NilPointerPanic, calls)"
    if "fst (new_request env msg appID appSecret passphrase part) = None"
    using that by (rule send_parts_nil)
  have c2: "SendMsg env msg = (NilPointerPanic, reqs)"
    if h: "parts = pre @ part # post \<and>
          map Some reqs = map (part_request env msg appID appSecret passphrase) pre \<and>
          (\<forall>i<length pre. snd (new_request env msg appID appSecret passphrase (pre ! i)) = None \<and>
                            snd (utils_MakeHTTPRequest env i (reqs ! i)) = None) \<and>
          fst (new_request env msg appID appSecret passphrase part) = None"
  proof -
    from h have m: "map Some reqs = map (part_request env msg appID appSecret passphrase) pre"
      and ok: "\<forall>i<length pre. snd (new_request env msg appID appSecret passphrase (pre ! i)) = None \<and>
                 snd (utils_MakeHTTPRequest env (length ([]::Request list) + i) (reqs ! i)) = None"
      and n: "fst (new_request env msg appID appSecret passphrase part) = None"
      and p: "parts = pre @ part # post"
      by simp_all
    from send_parts_reaches [OF m ok, of "part # post"
           "NewMsgStatusForID (msg_Channel msg) (msg_ID msg) MsgErrored"]
    obtain st' where
      "send_parts env msg appID appSecret passphrase (pre @ part # post)
         (NewMsgStatusForID (msg_Channel msg) (msg_ID msg) MsgErrored) [] =
       send_parts env msg appID appSecret passphrase (part # post) st' ([] @ reqs)"
      by blast
    with send_parts_nil [OF n, of post st' reqs] show ?thesis
      by (simp add: unfold p)
  qed
  have c3: "\<exists>part' \<in> set parts. fst (new_request env msg appID appSecret passphrase part') = None"
    if "fst (SendMsg env msg) = NilPointerPanic"
  proof -
    from that obtain calls' where
      "send_parts env msg appID appSecret passphrase parts
        (NewMsgStatusForID (msg_Channel msg) (msg_ID msg) MsgErrored) [] = (NilPointerPanic, calls')"
      unfolding unfold
      by (cases "send_parts env msg appID appSecret passphrase parts
                   (NewMsgStatusForID (msg_Channel msg) (msg_ID msg) MsgErrored) []") simp
    then show ?thesis by (rule send_parts_panic_origin)
  qed
  have c4: "SendMsg env msg = (NilPointerPanic, [])"
    if h: "(\<forall>b. fst (http_NewRequest env ''POST'' (sendURL (ch_Address (msg_Channel msg))) b) = None) \<and>
           parts \<noteq> []"
  proof -
    from h obtain part' parts' where p: "parts = part' # parts'" by (cases parts) auto
    from h have "fst (new_request env msg appID appSecret passphrase part') = None"
      by (simp add: new_request_def)
    from send_parts_nil [OF this] show ?thesis by (simp add: unfold p)
  qed
  have c5: "\<exists>b r. http_NewRequest env ''POST'' (sendURL (ch_Address (msg_Channel msg))) b
                     = (Some r, Some e)"
    if "fst (SendMsg env msg) = ReturnedError e"
  proof -
    from that obtain calls' where
      "send_parts env msg appID appSecret passphrase parts
        (NewMsgStatusForID (msg_Channel msg) (msg_ID msg) MsgErrored) [] = (ReturnedError e, calls')"
      unfolding unfold
      by (cases "send_parts env msg appID appSecret passphrase parts
                   (NewMsgStatusForID (msg_Channel msg) (msg_ID msg) MsgErrored) []") simp
    then show ?thesis by (rule send_parts_error_origin)
  qed
  have c6: "fst (SendMsg env msg) \<noteq> ReturnedError e"
    if nil: "\<forall>b. snd (http_NewRequest env ''POST'' (sendURL (ch_Address (msg_Channel msg))) b) \<noteq> None \<longrightarrow>
               fst (http_NewRequest env ''POST'' (sendURL (ch_Address (msg_Channel msg))) b) = None"
  proof
    assume "fst (SendMsg env msg) = ReturnedError e"
    from c5 [OF this] obtain b r where
      "http_NewRequest env ''POST'' (sendURL (ch_Address (msg_Channel msg))) b = (Some r, Some e)"
      by blast
    with nil [rule_format, of b] show False by simp
  qed
  from c1 c2 c3 c4 c5 c6 show ?thesis by blast
qed

text \<open>
  The same on the 161-character message: when the request of the second part is
  \<open>nil\<close> the send panics after the call of the first; with a URL that does not parse
  it panics at once; line 166 runs only for the constructor that returns a request
  with its error.
\<close>

theorem C9_nil_request_dereferenced_before_error_check_witness:
  "StringConfigForKey (msg_Channel msg161) configAppID '''' = ''my-app-id'' \<and>
   StringConfigForKey (msg_Channel msg161) configAppSecret '''' = ''my-app-secret'' \<and>
   StringConfigForKey (msg_Channel msg161) configPassphrase '''' = ''my-passphrase'' \<and>
   handlers_SplitMsg (tx_env (newRequest_nil_for (req_Body (request161 ''b''))) vendor_error_then_fail)
     (handlers_GetTextAndAttachments
        (tx_env (newRequest_nil_for (req_Body (request161 ''b''))) vendor_error_then_fail) msg161)
     maxMsgLength = [replicate 160 (CHR ''a'')] @ ''b'' # [] \<and>
   snd (utils_MakeHTTPRequest
          (tx_env (newRequest_nil_for (req_Body (request161 ''b''))) vendor_error_then_fail) 0
          (request161 (replicate 160 (CHR ''a'')))) = None \<and>
   fst (new_request (tx_env (newRequest_nil_for (req_Body (request161 ''b''))) vendor_error_then_fail)
          msg161 ''my-app-id'' ''my-app-secret'' ''my-passphrase'' ''b'') = None \<and>
   send_parts (tx_env (newRequest_nil_for (req_Body (request161 ''b''))) vendor_error_then_fail)
       msg161 ''my-app-id'' ''my-app-secret'' ''my-passphrase'' [''b'']
       (status161 MsgWired [log161 rr_vendor_error None]) [request161 (replicate 160 (CHR ''a''))]
     = (NilPointerPanic, [request161 (replicate 160 (CHR ''a''))]) \<and>
   SendMsg (tx_env (newRequest_nil_for (req_Body (request161 ''b''))) vendor_error_then_fail) msg161
     = (NilPointerPanic, [request161 (replicate 160 (CHR ''a''))]) \<and>
   (\<forall>b. http_NewRequest (tx_env newRequest_invalid_url fail_then_ok) ''POST''
           (sendURL (ch_Address (msg_Channel msg161))) b
         = (None, Some ''parse: invalid URL escape'')) \<and>
   SendMsg (tx_env newRequest_invalid_url fail_then_ok) msg161 = (NilPointerPanic, []) \<and>
   fst (SendMsg (tx_env newRequest_invalid_url fail_then_ok) msg161) \<noteq> ReturnedError ''request rejected'' \<and>
   fst (SendMsg (tx_env newRequest_with_error fail_then_ok) msg161) = ReturnedError ''request rejected'' \<and>
   (\<exists>b r. http_NewRequest (tx_env newRequest_with_error fail_then_ok) ''POST''
            (sendURL (ch_Address (msg_Channel msg161))) b
          = (Some r, Some ''request rejected''))"
proof -
  have c: "''my-app-id'' = StringConfigForKey (msg_Channel msg161) configAppID ''''"
    "''my-app-id'' \<noteq> ''''"
    "''my-app-secret'' = StringConfigForKey (msg_Channel msg161) configAppSecret ''''"
    "''my-app-secret'' \<noteq> ''''"
    "''my-passphrase'' = StringConfigForKey (msg_Channel msg161) configPassphrase ''''"
    "''my-passphrase'' \<noteq> ''''"
    by (simp_all add: msg161_def gl_channel_config)
  have p: "[replicate 160 (CHR ''a''), ''b''] =
             handlers_SplitMsg (tx_env nr outs) (handlers_GetTextAndAttachments (tx_env nr outs) msg161)
               maxMsgLength" for nr outs
    by (simp add: tx_env_def msg161_def SplitMsg_body161)
  have e: "fst (SendMsg (tx_env newRequest_with_error fail_then_ok) msg161)
             = ReturnedError ''request rejected''"
    by (simp add: send161_defs newRequest_with_error_def)
  have m: "snd (utils_MakeHTTPRequest
             (tx_env (newRequest_nil_for (req_Body (request161 ''b''))) vendor_error_then_fail) 0
             (request161 (replicate 160 (CHR ''a'')))) = None"
    by (simp add: tx_env_def scripted_net_def vendor_error_then_fail_def)
  note p1 = p [where nr = "newRequest_nil_for (req_Body (request161 ''b''))"
                 and outs = vendor_error_then_fail]
  note p2 = p [where nr = newRequest_invalid_url and outs = fail_then_ok]
  note p3 = p [where nr = newRequest_with_error and outs = fail_then_ok]
  note t1 = C9_nil_request_dereferenced_before_error_check
         [OF c p1, where part = "''b''" and rest = "[]"
            and status = "status161 MsgWired [log161 rr_vendor_error None]"
            and calls = "[request161 (replicate 160 (CHR ''a''))]"
            and pre = "[replicate 160 (CHR ''a'')]" and post = "[]"
            and reqs = "[request161 (replicate 160 (CHR ''a''))]" and e = "''request rejected''"]
  note t2 = C9_nil_request_dereferenced_before_error_check [OF c p2, where e = "''request rejected''"]
  note t3 = C9_nil_request_dereferenced_before_error_check [OF c p3, where e = "''request rejected''"]
  have a1: "send_parts (tx_env (newRequest_nil_for (req_Body (request161 ''b''))) vendor_error_then_fail)
       msg161 ''my-app-id'' ''my-app-secret'' ''my-passphrase'' [''b'']
       (status161 MsgWired [log161 rr_vendor_error None]) [request161 (replicate 160 (CHR ''a''))]
     = (NilPointerPanic, [request161 (replicate 160 (CHR ''a''))])"
    by (rule t1 [THEN conjunct1, THEN mp]) (rule nil_for_second_requests(3))
  have a2: "SendMsg (tx_env (newRequest_nil_for (req_Body (request161 ''b''))) vendor_error_then_fail)
              msg161 = (NilPointerPanic, [request161 (replicate 160 (CHR ''a''))])"
    by (rule t1 [THEN conjunct2, THEN conjunct1, THEN mp])
       (simp add: nil_for_second_requests m del: send_parts.simps)
  have u: "http_NewRequest (tx_env newRequest_invalid_url fail_then_ok) ''POST''
             (sendURL (ch_Address (msg_Channel msg161))) b
           = (None, Some ''parse: invalid URL escape'')" for b
    by (simp add: tx_env_def newRequest_invalid_url_def)
  have a3: "SendMsg (tx_env newRequest_invalid_url fail_then_ok) msg161 = (NilPointerPanic, [])"
    by (rule t2 [THEN conjunct2, THEN conjunct2, THEN conjunct2, THEN conjunct1, THEN mp])
       (simp add: u)
  have a4: "fst (SendMsg (tx_env newRequest_invalid_url fail_then_ok) msg161)
              \<noteq> ReturnedError ''request rejected''"
    by (rule t2 [THEN conjunct2, THEN conjunct2, THEN conjunct2, THEN conjunct2, THEN conjunct2,
                 THEN mp])
       (simp add: u)
  have a5: "\<exists>b r. http_NewRequest (tx_env newRequest_with_error fail_then_ok) ''POST''
            (sendURL (ch_Address (msg_Channel msg161))) b
          = (Some r, Some ''request rejected'')"
    by (rule t3 [THEN conjunct2, THEN conjunct2, THEN conjunct2, THEN conjunct2, THEN conjunct1,
                 THEN mp])
       (rule e)
  from a1 a2 a3 a4 a5 e m u c [symmetric] p1 [symmetric] nil_for_second_requests(3)
  show ?thesis by (simp del: send_parts.simps)
qed

text \<open>
  Claim C10. For each of the three keys, a channel that binds the key to the empty
  string and a channel that does not bind it at all give the same send: the same
  configuration error, and no network call.
\<close>

theorem C10_empty_config_value_is_missing:
  assumes "k \<in> {configAppID, configAppSecret, configPassphrase}"
  shows "SendMsg env (msg\<lparr>msg_Channel := c\<lparr>ch_Config := cfg(k \<mapsto> '''')\<rparr>\<rparr>) =
           SendMsg env (msg\<lparr>msg_Channel := c\<lparr>ch_Config := cfg(k := None)\<rparr>\<rparr>) \<and>
         (\<exists>e \<in> {''Missing 'app_id' config for GL channel'',
                 ''Missing 'app_secret' config for GL channel'',
                 ''Missing 'passphrase' config for GL channel''}.
            SendMsg env (msg\<lparr>msg_Channel := c\<lparr>ch_Config := cfg(k \<mapsto> '''')\<rparr>\<rparr>) = (ReturnedError e, []))"
proof -
  have same: "StringConfigForKey (c\<lparr>ch_Config := cfg(k \<mapsto> '''')\<rparr>) k' '''' =
              StringConfigForKey (c\<lparr>ch_Config := cfg(k := None)\<rparr>) k' ''''" for k'
    by (simp add: StringConfigForKey_def)
  have empty: "StringConfigForKey (c\<lparr>ch_Config := cfg(k := None)\<rparr>) k '''' = ''''"
    by (simp add: StringConfigForKey_def)
  from assms empty
  have "StringConfigForKey (c\<lparr>ch_Config := cfg(k := None)\<rparr>) configAppID '''' = '''' \<or>
        StringConfigForKey (c\<lparr>ch_Config := cfg(k := None)\<rparr>) configAppSecret '''' = '''' \<or>
        StringConfigForKey (c\<lparr>ch_Config := cfg(k := None)\<rparr>) configPassphrase '''' = ''''"
    by auto
  then show ?thesis by (auto simp: SendMsg_def Let_def same)
qed

text \<open>The same for the passphrase of \<open>gl_channel\<close>.\<close>

theorem C10_empty_config_value_is_missing_witness:
  "configPassphrase \<in> {configAppID, configAppSecret, configPassphrase} \<and>
   SendMsg (tx_env newRequest_ok fail_then_ok)
     (msg161\<lparr>msg_Channel := gl_channel\<lparr>ch_Config := (ch_Config gl_channel)(configPassphrase \<mapsto> '''')\<rparr>\<rparr>) =
     (ReturnedError ''Missing 'passphrase' config for GL channel'', []) \<and>
   SendMsg (tx_env newRequest_ok fail_then_ok)
     (msg161\<lparr>msg_Channel := gl_channel\<lparr>ch_Config := (ch_Config gl_channel)(configPassphrase := None)\<rparr>\<rparr>) =
     (ReturnedError ''Missing 'passphrase' config for GL channel'', [])"
proof -
  have k: "configPassphrase \<in> {configAppID, configAppSecret, configPassphrase}" by simp
  have "SendMsg (tx_env newRequest_ok fail_then_ok)
     (msg161\<lparr>msg_Channel := gl_channel\<lparr>ch_Config := (ch_Config gl_channel)(configPassphrase \<mapsto> '''')\<rparr>\<rparr>) =
     (ReturnedError ''Missing 'passphrase' config for GL channel'', [])"
    by (simp add: SendMsg_def Let_def StringConfigForKey_def gl_channel_def configAppID_def
                  configAppSecret_def configPassphrase_def)
  with C10_empty_config_value_is_missing
         [OF k, where env = "tx_env newRequest_ok fail_then_ok" and msg = msg161
            and c = gl_channel and cfg = "ch_Config gl_channel"] k
  show ?thesis by simp
qed

subsection \<open>The receive loop, one entry at a time\<close>

lemma receive_entries_valid:
  assumes "entry_valid env e" and "backend_error env (wm_calls w) (incoming_of env c e) = None"
  shows "receive_entries env c (e # rest) events msgs w =
           receive_entries env c rest (events @ [incoming_of env c e]) (msgs @ [incoming_of env c e])
             (w\<lparr>wm_calls := wm_calls w @ [incoming_of env c e],
                persisted := persisted w @ [incoming_of env c e]\<rparr>)"
  using assms
  by (auto simp: entry_valid_def incoming_of_def WriteMsg_def Let_def NewIncomingMsg_def
                 WithExternalID_def WithReceivedOn_def split: sum.splits)

lemma receive_entries_invalid:
  assumes "\<not> entry_valid env e"
  shows "receive_entries env c (e # rest) events msgs w =
           (([], writer_error env (RequestError (entry_error env e))),
            w\<lparr>responses := responses w @ [RequestError (entry_error env e)]\<rparr>)"
  using assms
  by (auto simp: entry_valid_def entry_error_def WriteAndLogRequestError_def split: sum.splits)

lemma receive_entries_write_failed:
  assumes "entry_valid env e" and "backend_error env (wm_calls w) (incoming_of env c e) = Some x"
  shows "receive_entries env c (e # rest) events msgs w =
           (([], Some x), w\<lparr>wm_calls := wm_calls w @ [incoming_of env c e]\<rparr>)"
  using assms
  by (auto simp: entry_valid_def incoming_of_def WriteMsg_def Let_def NewIncomingMsg_def
                 WithExternalID_def WithReceivedOn_def split: sum.splits)

lemma receive_entries_valid_prefix:
  assumes "\<And>calls m. backend_error env calls m = None"
  shows "list_all (entry_valid env) pre \<Longrightarrow>
         receive_entries env c (pre @ rest) events msgs w =
           receive_entries env c rest (events @ map (incoming_of env c) pre)
             (msgs @ map (incoming_of env c) pre)
             (w\<lparr>wm_calls := wm_calls w @ map (incoming_of env c) pre,
                persisted := persisted w @ map (incoming_of env c) pre\<rparr>)"
proof (induction pre arbitrary: events msgs w)
  case Nil
  show ?case by simp
next
  case (Cons e pre)
  from Cons.prems have v: "entry_valid env e" and vs: "list_all (entry_valid env) pre" by simp_all
  have "receive_entries env c ((e # pre) @ rest) events msgs w =
          receive_entries env c (pre @ rest) (events @ [incoming_of env c e])
            (msgs @ [incoming_of env c e])
            (w\<lparr>wm_calls := wm_calls w @ [incoming_of env c e],
               persisted := persisted w @ [incoming_of env c e]\<rparr>)"
    using receive_entries_valid [OF v assms] by (simp del: receive_entries.simps)
  also note Cons.IH [OF vs]
  finally show ?case by (simp del: receive_entries.simps)
qed

lemma receive_entries_aborts:
  assumes "\<exists>e \<in> set es. \<not> entry_valid env e"
  shows "fst (fst (receive_entries env c es events msgs w)) = [] \<and>
         (responses (snd (receive_entries env c es events msgs w)) = responses w \<or>
          (\<exists>x. responses (snd (receive_entries env c es events msgs w)) =
                 responses w @ [RequestError x]))"
  using assms
proof (induction es arbitrary: events msgs w)
  case Nil
  then show ?case by simp
next
  case (Cons e es)
  show ?case
  proof (cases "entry_valid env e")
    case False
    then show ?thesis by (simp add: receive_entries_invalid del: receive_entries.simps)
  next
    case True
    with Cons.prems have rest: "\<exists>e \<in> set es. \<not> entry_valid env e" by auto
    show ?thesis
    proof (cases "backend_error env (wm_calls w) (incoming_of env c e)")
      case None
      from Cons.IH [OF rest, of "events @ [incoming_of env c e]" "msgs @ [incoming_of env c e]"
             "w\<lparr>wm_calls := wm_calls w @ [incoming_of env c e],
                persisted := persisted w @ [incoming_of env c e]\<rparr>"]
      show ?thesis
        by (simp add: receive_entries_valid [OF True None] del: receive_entries.simps)
    next
      case (Some x)
      show ?thesis by (simp add: receive_entries_write_failed [OF True Some] del: receive_entries.simps)
    qed
  qed
qed

lemma ReceiveMessage_decoded:
  assumes "handlers_DecodeAndValidateJSON env r = Inr glRequest"
      and "InboundSMSMessage (InboundSMSMessageList glRequest) \<noteq> []"
  shows "ReceiveMessage env c r w =
           receive_entries env c (InboundSMSMessage (InboundSMSMessageList glRequest)) [] [] w"
  using assms by (simp add: ReceiveMessage_def)

subsection \<open>Receiving: the scenarios, evaluated\<close>

lemmas receive_defs =
  ReceiveMessage_def rx_env_def batch_def entry_hello_def entry_no_tel_def entry_bad_date_def
  parse_example_date_def tel_urn_def backend_up_def backend_down_def writer_up_def rx_world0_def
  gl_channel_def msg_hello_def dateLayout_def HasPrefix_def WriteMsg_def
  WriteAndLogRequestError_def WriteAndLogRequestIgnored_def WriteMsgSuccess_def
  NewIncomingMsg_def WithExternalID_def WithReceivedOn_def Let_def

lemma receive_hello_then_no_tel:
  "ReceiveMessage (rx_env [entry_hello, entry_no_tel] backend_up) gl_channel webhook_body rx_world0 =
     (([], None),
      \<lparr>wm_calls = [msg_hello], persisted = [msg_hello],
       responses = [RequestError ''invalid 'senderAddress' parameter'']\<rparr>)"
  by (simp add: receive_defs)

lemma receive_hello_then_bad_date:
  "ReceiveMessage (rx_env [entry_hello, entry_bad_date] backend_up) gl_channel webhook_body rx_world0 =
     (([], None),
      \<lparr>wm_calls = [msg_hello], persisted = [msg_hello],
       responses = [RequestError ''parsing time: cannot parse'']\<rparr>)"
  by (simp add: receive_defs)

lemma receive_hello_backend_down:
  "ReceiveMessage (rx_env [entry_hello] backend_down) gl_channel webhook_body rx_world0 =
     (([], Some ''database connection lost''),
      \<lparr>wm_calls = [msg_hello], persisted = [], responses = []\<rparr>)"
  by (simp add: receive_defs)

lemma receive_hello:
  "ReceiveMessage (rx_env [entry_hello] backend_up) gl_channel webhook_body rx_world0 =
     (([msg_hello], None),
      \<lparr>wm_calls = [msg_hello], persisted = [msg_hello], responses = [MsgSuccess [msg_hello]]\<rparr>)"
  by (simp add: receive_defs)

lemma receive_nothing:
  "ReceiveMessage (rx_env [] backend_up) gl_channel webhook_body rx_world0 =
     (([], None),
      \<lparr>wm_calls = [], persisted = [], responses = [RequestIgnored ''no messages, ignored'']\<rparr>)"
  by (simp add: receive_defs)

lemma scenario_entries:
  "entry_valid (rx_env es b) entry_hello"
  "\<not> entry_valid (rx_env es b) entry_no_tel"
  "\<not> entry_valid (rx_env es b) entry_bad_date"
  "time_Parse (rx_env es b) dateLayout (DateTime entry_hello) = Inr 1385122333"
  "time_Parse (rx_env es b) dateLayout (DateTime entry_no_tel) = Inr 1385122333"
  "time_Parse (rx_env es b) dateLayout (DateTime entry_bad_date) = Inl ''parsing time: cannot parse''"
  "HasPrefix (SenderAddress entry_hello) ''tel:''"
  "\<not> HasPrefix (SenderAddress entry_no_tel) ''tel:''"
  by (simp_all add: entry_valid_def rx_env_def entry_hello_def entry_no_tel_def entry_bad_date_def
                    parse_example_date_def HasPrefix_def)

lemma incoming_of_hello: "incoming_of (rx_env es b) gl_channel entry_hello = msg_hello"
  by (simp add: incoming_of_def rx_env_def entry_hello_def gl_channel_def tel_urn_def
                parse_example_date_def msg_hello_def)

subsection \<open>Receiving: the claims\<close>

lemma rx_env_decodes [simp]: "handlers_DecodeAndValidateJSON (rx_env es b) r = Inr (batch es)"
  by (simp add: rx_env_def)

lemma batch_entries [simp]: "InboundSMSMessage (InboundSMSMessageList (batch es)) = es"
  by (simp add: batch_def)

lemma rx_env_backend [simp]: "backend_error (rx_env es b) = b"
  by (simp add: rx_env_def)

lemma ReceiveMessage_first_invalid:
  assumes "handlers_DecodeAndValidateJSON env r = Inr glRequest"
      and "InboundSMSMessage (InboundSMSMessageList glRequest) = pre @ bad # post"
      and "list_all (entry_valid env) pre"
      and "\<not> entry_valid env bad"
      and "\<And>calls m. backend_error env calls m = None"
  shows "ReceiveMessage env c r w =
           (([], writer_error env (RequestError (entry_error env bad))),
            w\<lparr>wm_calls := wm_calls w @ map (incoming_of env c) pre,
              persisted := persisted w @ map (incoming_of env c) pre,
              responses := responses w @ [RequestError (entry_error env bad)]\<rparr>)"
proof -
  from assms(2) have "InboundSMSMessage (InboundSMSMessageList glRequest) \<noteq> []" by simp
  from ReceiveMessage_decoded [OF assms(1) this]
  have "ReceiveMessage env c r w = receive_entries env c (pre @ bad # post) [] [] w"
    by (simp only: assms(2))
  also have "\<dots> = receive_entries env c (bad # post) ([] @ map (incoming_of env c) pre)
                     ([] @ map (incoming_of env c) pre)
                     (w\<lparr>wm_calls := wm_calls w @ map (incoming_of env c) pre,
                        persisted := persisted w @ map (incoming_of env c) pre\<rparr>)"
    by (rule receive_entries_valid_prefix [OF assms(5) assms(3)])
  also have "\<dots> = (([], writer_error env (RequestError (entry_error env bad))),
            w\<lparr>wm_calls := wm_calls w @ map (incoming_of env c) pre,
              persisted := persisted w @ map (incoming_of env c) pre,
              responses := responses w @ [RequestError (entry_error env bad)]\<rparr>)"
    by (simp add: receive_entries_invalid [OF assms(4)] del: receive_entries.simps)
  finally show ?thesis .
qed

lemma ReceiveMessage_aborts:
  assumes "handlers_DecodeAndValidateJSON env r = Inr glRequest"
      and "\<exists>e \<in> set (InboundSMSMessage (InboundSMSMessageList glRequest)). \<not> entry_valid env e"
  shows "fst (fst (ReceiveMessage env c r w)) = [] \<and>
         (responses (snd (ReceiveMessage env c r w)) = responses w \<or>
          (\<exists>x. responses (snd (ReceiveMessage env c r w)) = responses w @ [RequestError x]))"
proof -
  from assms(2) have "InboundSMSMessage (InboundSMSMessageList glRequest) \<noteq> []" by auto
  from ReceiveMessage_decoded [OF assms(1) this] receive_entries_aborts [OF assms(2)]
  show ?thesis by simp
qed

text \<open>
  Claim C2, as the code has it. A batch with an entry that fails validation returns
  no message and writes no success acknowledgment, at most a request error. It is
  not all-or-nothing for the backend: each entry is written as soon as it has
  passed its checks, so when the backend accepts its writes the entries before the
  first failing one are persisted, in order, and that entry and those after it are
  not.
\<close>

theorem C2_batch_aborts_after_persisting_valid_prefix:
  assumes "handlers_DecodeAndValidateJSON env r = Inr glRequest"
  shows "((\<exists>e \<in> set (InboundSMSMessage (InboundSMSMessageList glRequest)). \<not> entry_valid env e) \<longrightarrow>
            fst (fst (ReceiveMessage env c r w)) = [] \<and>
            (responses (snd (ReceiveMessage env c r w)) = responses w \<or>
             (\<exists>x. responses (snd (ReceiveMessage env c r w)) = responses w @ [RequestError x]))) \<and>
         (InboundSMSMessage (InboundSMSMessageList glRequest) = pre @ bad # post \<and>
          list_all (entry_valid env) pre \<and> \<not> entry_valid env bad \<and>
          (\<forall>calls m. backend_error env calls m = None) \<longrightarrow>
            ReceiveMessage env c r w =
              (([], writer_error env (RequestError (entry_error env bad))),
               w\<lparr>wm_calls := wm_calls w @ map (incoming_of env c) pre,
                 persisted := persisted w @ map (incoming_of env c) pre,
                 responses := responses w @ [RequestError (entry_error env bad)]\<rparr>))"
proof (intro conjI impI)
  assume "\<exists>e \<in> set (InboundSMSMessage (InboundSMSMessageList glRequest)). \<not> entry_valid env e"
  from ReceiveMessage_aborts [OF assms this]
  show "fst (fst (ReceiveMessage env c r w)) = []"
    and "responses (snd (ReceiveMessage env c r w)) = responses w \<or>
         (\<exists>x. responses (snd (ReceiveMessage env c r w)) = responses w @ [RequestError x])"
    by simp_all
next
  assume h: "InboundSMSMessage (InboundSMSMessageList glRequest) = pre @ bad # post \<and>
          list_all (entry_valid env) pre \<and> \<not> entry_valid env bad \<and>
          (\<forall>calls m. backend_error env calls m = None)"
  then have "\<And>calls m. backend_error env calls m = None" by blast
  with h show "ReceiveMessage env c r w =
              (([], writer_error env (RequestError (entry_error env bad))),
               w\<lparr>wm_calls := wm_calls w @ map (incoming_of env c) pre,
                 persisted := persisted w @ map (incoming_of env c) pre,
                 responses := responses w @ [RequestError (entry_error env bad)]\<rparr>)"
    by (intro ReceiveMessage_first_invalid [OF assms]) simp_all
qed

text \<open>
  The same on a batch of three entries, of which the second has no \<open>tel:\<close> prefix:
  the first is persisted, nothing is returned.
\<close>

theorem C2_batch_aborts_after_persisting_valid_prefix_witness:
  "handlers_DecodeAndValidateJSON (rx_env [entry_hello, entry_no_tel, entry_bad_date] backend_up)
     webhook_body = Inr (batch [entry_hello, entry_no_tel, entry_bad_date]) \<and>
   InboundSMSMessage (InboundSMSMessageList (batch [entry_hello, entry_no_tel, entry_bad_date]))
     = [entry_hello] @ entry_no_tel # [entry_bad_date] \<and>
   list_all (entry_valid (rx_env [entry_hello, entry_no_tel, entry_bad_date] backend_up)) [entry_hello] \<and>
   \<not> entry_valid (rx_env [entry_hello, entry_no_tel, entry_bad_date] backend_up) entry_no_tel \<and>
   ReceiveMessage (rx_env [entry_hello, entry_no_tel, entry_bad_date] backend_up) gl_channel
       webhook_body rx_world0 =
     (([], None),
      \<lparr>wm_calls = [msg_hello], persisted = [msg_hello],
       responses = [RequestError ''invalid 'senderAddress' parameter'']\<rparr>)"
  using C2_batch_aborts_after_persisting_valid_prefix
          [where env = "rx_env [entry_hello, entry_no_tel, entry_bad_date] backend_up"
             and r = webhook_body and glRequest = "batch [entry_hello, entry_no_tel, entry_bad_date]"
             and c = gl_channel and w = rx_world0
             and pre = "[entry_hello]" and bad = entry_no_tel and post = "[entry_bad_date]"]
  by (simp add: scenario_entries incoming_of_hello backend_up_def entry_error_def rx_world0_def)
     (simp add: rx_env_def writer_up_def)

text \<open>
  Claim C2, as stated, fails. In a batch of a valid entry followed by one without
  the \<open>tel:\<close> prefix, the first entry has been handed to the backend and persisted
  when the second is rejected.
\<close>

theorem C2_counterexample:
  "entry_valid (rx_env [entry_hello, entry_no_tel] backend_up) entry_hello \<and>
   \<not> HasPrefix (SenderAddress entry_no_tel) ''tel:'' \<and>
   persisted (snd (ReceiveMessage (rx_env [entry_hello, entry_no_tel] backend_up) gl_channel
                     webhook_body rx_world0)) = [msg_hello] \<and>
   persisted rx_world0 = []"
  using receive_hello_then_no_tel by (simp add: scenario_entries rx_world0_def)

lemma bad_date_invalid:
  "time_Parse env dateLayout (DateTime e) = Inl err \<Longrightarrow> \<not> entry_valid env e"
  by (simp add: entry_valid_def)

lemma tel_prefix_split:
  assumes "HasPrefix s ''tel:''"
  shows "''tel:'' @ drop 4 s = s"
proof -
  have l: "length ''tel:'' = (4::nat)" by simp
  from assms have "take 4 s = ''tel:''" unfolding HasPrefix_def l .
  then have "''tel:'' @ drop 4 s = take 4 s @ drop 4 s" by (simp only:)
  also have "\<dots> = s" by (rule append_take_drop_id)
  finally show ?thesis .
qed

text \<open>
  Claim C7, as the code has it. A batch with an entry whose \<open>dateTime\<close> does not
  parse with the layout returns no message and writes no success acknowledgment, at
  most a request error. When that entry is the first to fail and the backend
  accepts its writes, the request error carries the parse error; the entries before
  it have been persisted, in order, and that entry and those after it are not.
\<close>

theorem C7_bad_date_aborts_rest_of_batch:
  assumes "handlers_DecodeAndValidateJSON env r = Inr glRequest"
  shows "((\<exists>e \<in> set (InboundSMSMessage (InboundSMSMessageList glRequest)).
             \<exists>err. time_Parse env dateLayout (DateTime e) = Inl err) \<longrightarrow>
            fst (fst (ReceiveMessage env c r w)) = [] \<and>
            (responses (snd (ReceiveMessage env c r w)) = responses w \<or>
             (\<exists>x. responses (snd (ReceiveMessage env c r w)) = responses w @ [RequestError x]))) \<and>
         (InboundSMSMessage (InboundSMSMessageList glRequest) = pre @ bad # post \<and>
          list_all (entry_valid env) pre \<and> time_Parse env dateLayout (DateTime bad) = Inl err \<and>
          (\<forall>calls m. backend_error env calls m = None) \<longrightarrow>
            ReceiveMessage env c r w =
              (([], writer_error env (RequestError err)),
               w\<lparr>wm_calls := wm_calls w @ map (incoming_of env c) pre,
                 persisted := persisted w @ map (incoming_of env c) pre,
                 responses := responses w @ [RequestError err]\<rparr>))"
proof (intro conjI impI)
  assume "\<exists>e \<in> set (InboundSMSMessage (InboundSMSMessageList glRequest)).
             \<exists>err. time_Parse env dateLayout (DateTime e) = Inl err"
  then have "\<exists>e \<in> set (InboundSMSMessage (InboundSMSMessageList glRequest)). \<not> entry_valid env e"
    by (blast dest: bad_date_invalid)
  from ReceiveMessage_aborts [OF assms this]
  show "fst (fst (ReceiveMessage env c r w)) = []"
    and "responses (snd (ReceiveMessage env c r w)) = responses w \<or>
         (\<exists>x. responses (snd (ReceiveMessage env c r w)) = responses w @ [RequestError x])"
    by simp_all
next
  assume h: "InboundSMSMessage (InboundSMSMessageList glRequest) = pre @ bad # post \<and>
          list_all (entry_valid env) pre \<and> time_Parse env dateLayout (DateTime bad) = Inl err \<and>
          (\<forall>calls m. backend_error env calls m = None)"
  then have b: "\<And>calls m. backend_error env calls m = None" by blast
  from h have bad: "\<not> entry_valid env bad" and e: "entry_error env bad = err"
    by (simp_all add: bad_date_invalid entry_error_def)
  from h have s: "InboundSMSMessage (InboundSMSMessageList glRequest) = pre @ bad # post"
    and p: "list_all (entry_valid env) pre" by simp_all
  from ReceiveMessage_first_invalid [OF assms s p bad b, of c w]
  show "ReceiveMessage env c r w =
              (([], writer_error env (RequestError err)),
               w\<lparr>wm_calls := wm_calls w @ map (incoming_of env c) pre,
                 persisted := persisted w @ map (incoming_of env c) pre,
                 responses := responses w @ [RequestError err]\<rparr>)"
    by (simp only: e)
qed

text \<open>
  The same on a batch of three entries, of which the second has a date in another
  layout: the first is persisted, nothing is returned.
\<close>

theorem C7_bad_date_aborts_rest_of_batch_witness:
  "handlers_DecodeAndValidateJSON (rx_env [entry_hello, entry_bad_date, entry_hello] backend_up)
     webhook_body = Inr (batch [entry_hello, entry_bad_date, entry_hello]) \<and>
   InboundSMSMessage (InboundSMSMessageList (batch [entry_hello, entry_bad_date, entry_hello]))
     = [entry_hello] @ entry_bad_date # [entry_hello] \<and>
   list_all (entry_valid (rx_env [entry_hello, entry_bad_date, entry_hello] backend_up)) [entry_hello] \<and>
   time_Parse (rx_env [entry_hello, entry_bad_date, entry_hello] backend_up) dateLayout
     (DateTime entry_bad_date) = Inl ''parsing time: cannot parse'' \<and>
   ReceiveMessage (rx_env [entry_hello, entry_bad_date, entry_hello] backend_up) gl_channel
       webhook_body rx_world0 =
     (([], None),
      \<lparr>wm_calls = [msg_hello], persisted = [msg_hello],
       responses = [RequestError ''parsing time: cannot parse'']\<rparr>)"
  using C7_bad_date_aborts_rest_of_batch
          [where env = "rx_env [entry_hello, entry_bad_date, entry_hello] backend_up"
             and r = webhook_body and glRequest = "batch [entry_hello, entry_bad_date, entry_hello]"
             and c = gl_channel and w = rx_world0
             and pre = "[entry_hello]" and bad = entry_bad_date and post = "[entry_hello]"
             and err = "''parsing time: cannot parse''"]
  by (simp add: scenario_entries incoming_of_hello backend_up_def rx_world0_def)
     (simp add: rx_env_def writer_up_def)

text \<open>
  Claim C7, as stated, fails. In a batch of a valid entry followed by one whose date
  does not parse, the first entry has been handed to the backend and persisted when
  the second is rejected: a message of the batch was accepted.
\<close>

theorem C7_counterexample:
  "entry_valid (rx_env [entry_hello, entry_bad_date] backend_up) entry_hello \<and>
   time_Parse (rx_env [entry_hello, entry_bad_date] backend_up) dateLayout (DateTime entry_bad_date)
     = Inl ''parsing time: cannot parse'' \<and>
   persisted (snd (ReceiveMessage (rx_env [entry_hello, entry_bad_date] backend_up) gl_channel
                     webhook_body rx_world0)) = [msg_hello] \<and>
   persisted rx_world0 = []"
  using receive_hello_then_bad_date by (simp add: scenario_entries rx_world0_def)

text \<open>
  Claim C5, as the code has it. For a batch of \<open>N \<ge> 1\<close> entries whose dates all
  parse with the layout and whose senders all start with \<open>tel:\<close>, and a backend that
  accepts every write, the call returns exactly \<open>N\<close> messages, in the order of the
  entries; the sender of each is \<open>NewTelURNForCountry\<close> of the entry's sender address
  without its first four characters, the prefix \<open>tel:\<close>, and of the channel's
  country. They are the messages persisted and acknowledged.
\<close>

theorem C5_valid_batch_returns_all_messages:
  assumes "handlers_DecodeAndValidateJSON env r = Inr glRequest"
      and "InboundSMSMessage (InboundSMSMessageList glRequest) = entries"
      and "entries \<noteq> []"
      and "\<forall>e \<in> set entries. \<exists>date. time_Parse env dateLayout (DateTime e) = Inr date"
      and "\<forall>e \<in> set entries. HasPrefix (SenderAddress e) ''tel:''"
      and "\<forall>calls m. backend_error env calls m = None"
  shows "fst (fst (ReceiveMessage env c r w)) = map (incoming_of env c) entries \<and>
         length (fst (fst (ReceiveMessage env c r w))) = length entries \<and>
         (\<forall>i<length entries.
            in_URN (fst (fst (ReceiveMessage env c r w)) ! i) =
              urns_NewTelURNForCountry env (drop 4 (SenderAddress (entries ! i))) (ch_Country c) \<and>
            ''tel:'' @ drop 4 (SenderAddress (entries ! i)) = SenderAddress (entries ! i)) \<and>
         persisted (snd (ReceiveMessage env c r w)) = persisted w @ map (incoming_of env c) entries \<and>
         responses (snd (ReceiveMessage env c r w)) =
           responses w @ [MsgSuccess (map (incoming_of env c) entries)]"
proof -
  from assms(4,5) have v: "list_all (entry_valid env) entries"
    by (auto simp: list_all_iff entry_valid_def)
  from assms(6) have b: "\<And>calls m. backend_error env calls m = None" by blast
  from assms(2,3) have "InboundSMSMessage (InboundSMSMessageList glRequest) \<noteq> []" by simp
  from ReceiveMessage_decoded [OF assms(1) this]
  have "ReceiveMessage env c r w = receive_entries env c (entries @ []) [] [] w"
    by (simp only: assms(2) append_Nil2)
  also have "\<dots> = receive_entries env c [] ([] @ map (incoming_of env c) entries)
                     ([] @ map (incoming_of env c) entries)
                     (w\<lparr>wm_calls := wm_calls w @ map (incoming_of env c) entries,
                        persisted := persisted w @ map (incoming_of env c) entries\<rparr>)"
    by (rule receive_entries_valid_prefix [OF b v])
  finally have run: "ReceiveMessage env c r w =
      ((map (incoming_of env c) entries, writer_error env (MsgSuccess (map (incoming_of env c) entries))),
       w\<lparr>wm_calls := wm_calls w @ map (incoming_of env c) entries,
         persisted := persisted w @ map (incoming_of env c) entries,
         responses := responses w @ [MsgSuccess (map (incoming_of env c) entries)]\<rparr>)"
    by (simp add: WriteMsgSuccess_def)
  have pre: "''tel:'' @ drop 4 (SenderAddress (entries ! i)) = SenderAddress (entries ! i)"
    if "i < length entries" for i
    using that assms(5) by (intro tel_prefix_split) simp
  from run pre show ?thesis by (simp add: incoming_of_def)
qed

text \<open>The handler's own example payload: one entry, one message.\<close>

theorem C5_valid_batch_returns_all_messages_witness:
  "handlers_DecodeAndValidateJSON (rx_env [entry_hello] backend_up) webhook_body
     = Inr (batch [entry_hello]) \<and>
   time_Parse (rx_env [entry_hello] backend_up) dateLayout (DateTime entry_hello) = Inr 1385122333 \<and>
   HasPrefix (SenderAddress entry_hello) ''tel:'' \<and>
   fst (fst (ReceiveMessage (rx_env [entry_hello] backend_up) gl_channel webhook_body rx_world0))
     = [msg_hello] \<and>
   in_URN msg_hello = urns_NewTelURNForCountry (rx_env [entry_hello] backend_up) ''+639171234567'' ''PH'' \<and>
   persisted (snd (ReceiveMessage (rx_env [entry_hello] backend_up) gl_channel webhook_body rx_world0))
     = [msg_hello] \<and>
   responses (snd (ReceiveMessage (rx_env [entry_hello] backend_up) gl_channel webhook_body rx_world0))
     = [MsgSuccess [msg_hello]]"
  using C5_valid_batch_returns_all_messages
          [where env = "rx_env [entry_hello] backend_up" and r = webhook_body
             and glRequest = "batch [entry_hello]" and entries = "[entry_hello]"
             and c = gl_channel and w = rx_world0]
  by (simp add: scenario_entries incoming_of_hello backend_up_def rx_world0_def)
     (simp add: rx_env_def msg_hello_def tel_urn_def)

text \<open>
  Claim C5, as stated, fails: it needs the backend to accept the writes. The
  example payload, valid in its date and its sender, gives no message when
  \<open>WriteMsg\<close> returns an error.
\<close>

theorem C5_counterexample:
  "InboundSMSMessage (InboundSMSMessageList (batch [entry_hello])) = [entry_hello] \<and>
   time_Parse (rx_env [entry_hello] backend_down) dateLayout (DateTime entry_hello) = Inr 1385122333 \<and>
   HasPrefix (SenderAddress entry_hello) ''tel:'' \<and>
   ReceiveMessage (rx_env [entry_hello] backend_down) gl_channel webhook_body rx_world0 =
     (([], Some ''database connection lost''),
      \<lparr>wm_calls = [msg_hello], persisted = [], responses = []\<rparr>)"
  using receive_hello_backend_down by (simp add: scenario_entries)

text \<open>
  Claim C8. A payload that decodes to an empty list of entries returns no message
  and writes the one acknowledgment Ignored, with the reason
  \<open>no messages, ignored\<close>: neither a request error nor a success acknowledgment. The
  backend is not called and nothing is persisted.
\<close>

theorem C8_empty_batch_ignored:
  assumes "handlers_DecodeAndValidateJSON env r = Inr glRequest"
      and "InboundSMSMessage (InboundSMSMessageList glRequest) = []"
  shows "ReceiveMessage env c r w =
           (([], writer_error env (RequestIgnored ''no messages, ignored'')),
            w\<lparr>responses := responses w @ [RequestIgnored ''no messages, ignored'']\<rparr>) \<and>
         wm_calls (snd (ReceiveMessage env c r w)) = wm_calls w \<and>
         persisted (snd (ReceiveMessage env c r w)) = persisted w"
  using assms by (simp add: ReceiveMessage_def WriteAndLogRequestIgnored_def)

text \<open>The same on the empty batch, from the initial world.\<close>

theorem C8_empty_batch_ignored_witness:
  "handlers_DecodeAndValidateJSON (rx_env [] backend_up) webhook_body = Inr (batch []) \<and>
   InboundSMSMessage (InboundSMSMessageList (batch [])) = [] \<and>
   ReceiveMessage (rx_env [] backend_up) gl_channel webhook_body rx_world0 =
     (([], None),
      \<lparr>wm_calls = [], persisted = [], responses = [RequestIgnored ''no messages, ignored'']\<rparr>)"
  using C8_empty_batch_ignored
          [where env = "rx_env [] backend_up" and r = webhook_body and glRequest = "batch []"
             and c = gl_channel and w = rx_world0]
  by (simp add: rx_world0_def) (simp add: rx_env_def writer_up_def)

end
